theory Spec2Isabelle
  imports Complex_Main
begin

section \<open>Ingestion job lifecycle of the document-management backend\<close>

text \<open>
  A shallow embedding of \<^verbatim>\<open>IngestionService\<close> (ingestion.service.ts), of the
  \<^verbatim>\<open>IngestionJob\<close> entity and of the two \<^verbatim>\<open>DocumentsService\<close> methods the
  ingestion code calls.

  Conventions.
  \<^item> A nullable column or an optional DTO property is an \<open>option\<close>; \<open>None\<close> stands for
    \<^verbatim>\<open>null\<close>/\<^verbatim>\<open>undefined\<close>.
  \<^item> A \<^verbatim>\<open>Date\<close> is its \<^verbatim>\<open>getTime()\<close>, milliseconds as an \<open>int\<close>. Every
    \<^verbatim>\<open>new Date()\<close> of the source is an explicit argument of the operation.
  \<^item> A JSON value is represented by its serialised text, so \<^verbatim>\<open>JSON.stringify\<close> and
    \<^verbatim>\<open>JSON.parse\<close> are the identity on the representation (the only writer of the
    \<^verbatim>\<open>configuration\<close> column is \<^verbatim>\<open>create\<close>, which stores \<^verbatim>\<open>JSON.stringify\<close> output).
  \<^item> A rejected promise is \<open>Inl\<close> of the exception; every operation returns the store
    it leaves behind, also when it throws.
  \<^item> A TypeORM repository is the list of its rows. The entity declares
    \<^verbatim>\<open>documentId\<close> as a foreign key into the documents with \<^verbatim>\<open>onDelete: 'CASCADE'\<close>:
    the store refuses to write a job whose \<^verbatim>\<open>documentId\<close> names no document, and
    removing a document removes the jobs that reference it. Columns maintained by the
    store alone (\<^verbatim>\<open>createdAt\<close>, \<^verbatim>\<open>updatedAt\<close>), the unused \<^verbatim>\<open>logs\<close> column and the
    loaded relation objects are outside the model.
  \<^item> \<^verbatim>\<open>IngestionType\<close> is a TypeScript string enum whose values arrive in the request body,
    so it is modelled by its strings; the two status enums are only ever assigned from
    their constants and are datatypes.
\<close>

subsection \<open>Data model\<close>

type_synonym json = string
type_synonym Date = int

datatype IngestionStatus = PENDING | PROCESSING | COMPLETED | FAILED | CANCELLED

definition SINGLE_DOCUMENT :: string where
  "SINGLE_DOCUMENT = ''single_document''"

definition BATCH_DOCUMENTS :: string where
  "BATCH_DOCUMENTS = ''batch_documents''"

definition REPROCESS :: string where
  "REPROCESS = ''reprocess''"

datatype DocumentStatus = UPLOADED | PROCESSING_doc | PROCESSED | ERROR

datatype exception =
    NotFoundException string
  | BadRequestException string
  | QueryFailedError string

fun message :: "exception \<Rightarrow> string" where
  "message (NotFoundException m) = m"
| "message (BadRequestException m) = m"
| "message (QueryFailedError m) = m"

record Document =
  id_doc :: string
  title :: string
  filePath :: string
  mimeType :: string
  fileSize :: int
  status_doc :: DocumentStatus
  lastProcessedAt :: "Date option"

record IngestionJob =
  id_job :: string
  name :: "string option"
  description :: "string option"
  status :: IngestionStatus
  ingestionType :: string
  configuration :: "string option"
  result :: "string option"
  errorMessage :: "string option"
  startedAt :: "Date option"
  completedAt :: "Date option"
  progress :: int
  retryCount :: int
  maxRetries :: int
  triggeredById :: "string option"
  documentId :: "string option"

record CreateIngestionJobDto =
  name_dto :: "string option"
  description_dto :: "string option"
  ingestionType_dto :: "string option"
  documentId_dto :: "string option"
  documentIds :: "string list option"
  configuration_dto :: "json option"

record payload_document =
  id_p :: string
  title_p :: string
  file_path :: string
  mime_type :: string
  file_size :: int

record payload =
  job_id :: string
  ingestion_type :: string
  configuration_p :: json
  document :: "payload_document option"
  documents :: "payload_document list option"

record state =
  ingestionJobRepository :: "IngestionJob list"
  documentRepository :: "Document list"
  userRepository :: "string list"

text \<open>
  JavaScript truthiness of a nullable string: \<^verbatim>\<open>null\<close>, \<^verbatim>\<open>undefined\<close> and the empty
  string are falsy. \<open>truthy v\<close> is the string when \<open>v\<close> is truthy.
\<close>

definition truthy :: "string option \<Rightarrow> string option" where
  "truthy v = (case v of None \<Rightarrow> None | Some x \<Rightarrow> if x = [] then None else Some x)"

subsection \<open>Repositories\<close>

definition findOne_job :: "IngestionJob list \<Rightarrow> string \<Rightarrow> IngestionJob option" where
  "findOne_job rows i = find (\<lambda>r. id_job r = i) rows"

definition findOne_doc :: "Document list \<Rightarrow> string \<Rightarrow> Document option" where
  "findOne_doc rows i = find (\<lambda>r. id_doc r = i) rows"

definition save_doc :: "Document list \<Rightarrow> Document \<Rightarrow> Document list" where
  "save_doc rows d =
     (case findOne_doc rows (id_doc d) of
        None \<Rightarrow> rows @ [d]
      | Some old \<Rightarrow> map (\<lambda>r. if id_doc r = id_doc d then d else r) rows)"

text \<open>
  The foreign key of \<^verbatim>\<open>documentId\<close>: a job row is admissible among the documents
  \<open>docs\<close> when its \<^verbatim>\<open>documentId\<close> is NULL or the id of one of them.
\<close>

definition foreign_key_holds :: "Document list \<Rightarrow> IngestionJob \<Rightarrow> bool" where
  "foreign_key_holds docs j =
     (case documentId j of None \<Rightarrow> True | Some d \<Rightarrow> findOne_doc docs d \<noteq> None)"

text \<open>
  \<^verbatim>\<open>ingestionJobRepository.save\<close>. An entity whose id has no row is inserted and the
  foreign key is checked. An entity whose id has a row updates that row; the store checks
  the foreign key only when the update changes \<^verbatim>\<open>documentId\<close>. A violated foreign
  key makes \<^verbatim>\<open>save\<close> throw and leaves the store as it was.
\<close>

definition insert_job :: "state \<Rightarrow> IngestionJob \<Rightarrow> exception + state" where
  "insert_job s j =
     (if foreign_key_holds (documentRepository s) j
      then Inr (s\<lparr>ingestionJobRepository := ingestionJobRepository s @ [j]\<rparr>)
      else Inl (QueryFailedError ''FOREIGN KEY constraint failed''))"

definition save_job :: "state \<Rightarrow> IngestionJob \<Rightarrow> exception + state" where
  "save_job s j =
     (case findOne_job (ingestionJobRepository s) (id_job j) of
        None \<Rightarrow> insert_job s j
      | Some old \<Rightarrow>
          (if documentId old = documentId j \<or> foreign_key_holds (documentRepository s) j
           then Inr (s\<lparr>ingestionJobRepository :=
                         map (\<lambda>r. if id_job r = id_job j then j else r)
                             (ingestionJobRepository s)\<rparr>)
           else Inl (QueryFailedError ''FOREIGN KEY constraint failed'')))"

text \<open>
  The documents are replaced by \<open>docs\<close> (documents were removed, added or changed by
  the documents service); the jobs whose document is no longer there go with it.
\<close>

definition documents_replaced :: "state \<Rightarrow> Document list \<Rightarrow> state" where
  "documents_replaced s docs =
     s\<lparr>documentRepository := docs,
       ingestionJobRepository := filter (foreign_key_holds docs) (ingestionJobRepository s)\<rparr>"

definition count_where :: "('a \<Rightarrow> bool) \<Rightarrow> 'a list \<Rightarrow> nat" where
  "count_where P rows = length (filter P rows)"

subsection \<open>DocumentsService\<close>

definition documentsService_findById :: "state \<Rightarrow> string \<Rightarrow> exception + Document" where
  "documentsService_findById s i =
     (case findOne_doc (documentRepository s) i of
        None \<Rightarrow> Inl (NotFoundException ''Document not found'')
      | Some d \<Rightarrow> Inr d)"

definition documentsService_updateStatus ::
  "state \<Rightarrow> string \<Rightarrow> DocumentStatus \<Rightarrow> Date \<Rightarrow> (exception + Document) \<times> state" where
  "documentsService_updateStatus s i st now =
     (case documentsService_findById s i of
        Inl e \<Rightarrow> (Inl e, s)
      | Inr d \<Rightarrow>
          (let d1 = d\<lparr>status_doc := st\<rparr>;
               d2 = (if st = PROCESSED then d1\<lparr>lastProcessedAt := Some now\<rparr> else d1)
           in (Inr d2, s\<lparr>documentRepository := save_doc (documentRepository s) d2\<rparr>)))"

subsection \<open>The IngestionJob entity's computed properties\<close>

definition isCompleted :: "IngestionJob \<Rightarrow> bool" where
  "isCompleted j = (status j = COMPLETED)"

definition isFailed :: "IngestionJob \<Rightarrow> bool" where
  "isFailed j = (status j = FAILED)"

definition isProcessing :: "IngestionJob \<Rightarrow> bool" where
  "isProcessing j = (status j = PROCESSING)"

definition isPending :: "IngestionJob \<Rightarrow> bool" where
  "isPending j = (status j = PENDING)"

definition canRetry :: "IngestionJob \<Rightarrow> bool" where
  "canRetry j = (isFailed j \<and> retryCount j < maxRetries j)"

definition duration :: "IngestionJob \<Rightarrow> int option" where
  "duration j =
     (case startedAt j of
        None \<Rightarrow> None
      | Some a \<Rightarrow> (case completedAt j of None \<Rightarrow> None | Some b \<Rightarrow> Some (b - a)))"

subsection \<open>IngestionService\<close>

text \<open>The loop of \<^verbatim>\<open>validateIngestionJobDto\<close> over \<^verbatim>\<open>dto.documentIds\<close>.\<close>

fun verify_documents :: "state \<Rightarrow> string list \<Rightarrow> exception + unit" where
  "verify_documents s [] = Inr ()"
| "verify_documents s (docId # rest) =
     (case documentsService_findById s docId of
        Inl e \<Rightarrow> Inl e
      | Inr d \<Rightarrow> verify_documents s rest)"

definition validateIngestionJobDto :: "state \<Rightarrow> CreateIngestionJobDto \<Rightarrow> exception + unit" where
  "validateIngestionJobDto s dto =
     (case (if ingestionType_dto dto = Some SINGLE_DOCUMENT then
              (case truthy (documentId_dto dto) of
                 None \<Rightarrow> Inl (BadRequestException
                           ''Document ID is required for single document ingestion'')
               | Some i \<Rightarrow>
                   (case documentsService_findById s i of
                      Inl e \<Rightarrow> Inl e
                    | Inr d \<Rightarrow> Inr ()))
            else Inr ()) of
        Inl e \<Rightarrow> Inl e
      | Inr u \<Rightarrow>
          (if ingestionType_dto dto = Some BATCH_DOCUMENTS then
             (case documentIds dto of
                None \<Rightarrow> Inl (BadRequestException
                          ''Document IDs are required for batch ingestion'')
              | Some ids \<Rightarrow>
                  (if length ids = 0
                   then Inl (BadRequestException
                          ''Document IDs are required for batch ingestion'')
                   else verify_documents s ids))
           else Inr ()))"

text \<open>
  \<^verbatim>\<open>create\<close>. The id is generated by the store and is the argument \<open>newId\<close>. The entity
  has no \<^verbatim>\<open>documentIds\<close> column, so that DTO property is not persisted; a property the
  DTO leaves undefined takes its column default (\<^verbatim>\<open>ingestionType\<close>: SINGLE_DOCUMENT,
  \<^verbatim>\<open>progress\<close>: 0, \<^verbatim>\<open>retryCount\<close>: 0, \<^verbatim>\<open>maxRetries\<close>: 3). \<^verbatim>\<open>save\<close> of the new
  entity is an insert. The dispatch that \<^verbatim>\<open>create\<close> starts without awaiting it is the
  separate operation \<open>triggerIngestion\<close> below.
\<close>

definition create ::
  "state \<Rightarrow> CreateIngestionJobDto \<Rightarrow> string \<Rightarrow> string \<Rightarrow> (exception + IngestionJob) \<times> state" where
  "create s createIngestionJobDto userId newId =
     (case validateIngestionJobDto s createIngestionJobDto of
        Inl e \<Rightarrow> (Inl e, s)
      | Inr u \<Rightarrow>
          (case find (\<lambda>uid. uid = userId) (userRepository s) of
             None \<Rightarrow> (Inl (NotFoundException ''User not found''), s)
           | Some user \<Rightarrow>
               (let ingestionJob =
                      \<lparr> id_job = newId,
                        name = name_dto createIngestionJobDto,
                        description = description_dto createIngestionJobDto,
                        status = PENDING,
                        ingestionType =
                          (case ingestionType_dto createIngestionJobDto of
                             None \<Rightarrow> SINGLE_DOCUMENT
                           | Some t \<Rightarrow> t),
                        configuration = configuration_dto createIngestionJobDto,
                        result = None,
                        errorMessage = None,
                        startedAt = None,
                        completedAt = None,
                        progress = 0,
                        retryCount = 0,
                        maxRetries = 3,
                        triggeredById = Some user,
                        documentId = documentId_dto createIngestionJobDto \<rparr>
                in (case insert_job s ingestionJob of
                      Inl e \<Rightarrow> (Inl e, s)
                    | Inr s1 \<Rightarrow> (Inr ingestionJob, s1)))))"

definition findById :: "state \<Rightarrow> string \<Rightarrow> exception + IngestionJob" where
  "findById s i =
     (case findOne_job (ingestionJobRepository s) i of
        None \<Rightarrow> Inl (NotFoundException ''Ingestion job not found'')
      | Some job \<Rightarrow> Inr job)"

definition retry :: "state \<Rightarrow> string \<Rightarrow> (exception + IngestionJob) \<times> state" where
  "retry s i =
     (case findById s i of
        Inl e \<Rightarrow> (Inl e, s)
      | Inr job \<Rightarrow>
          (if \<not> canRetry job then (Inl (BadRequestException ''Job cannot be retried''), s)
           else
             (let job1 = job\<lparr>status := PENDING\<rparr>;
                  job2 = job1\<lparr>retryCount := retryCount job1 + 1\<rparr>;
                  job3 = job2\<lparr>errorMessage := None\<rparr>;
                  job4 = job3\<lparr>startedAt := None\<rparr>;
                  job5 = job4\<lparr>completedAt := None\<rparr>
              in (case save_job s job5 of
                    Inl e \<Rightarrow> (Inl e, s)
                  | Inr s1 \<Rightarrow> (Inr job5, s1)))))"

definition cancel :: "state \<Rightarrow> string \<Rightarrow> Date \<Rightarrow> (exception + IngestionJob) \<times> state" where
  "cancel s i now =
     (case findById s i of
        Inl e \<Rightarrow> (Inl e, s)
      | Inr job \<Rightarrow>
          (if isCompleted job \<or> isFailed job
           then (Inl (BadRequestException ''Cannot cancel completed or failed job''), s)
           else
             (let job1 = job\<lparr>status := CANCELLED\<rparr>;
                  job2 = job1\<lparr>completedAt := Some now\<rparr>
              in (case save_job s job2 of
                    Inl e \<Rightarrow> (Inl e, s)
                  | Inr s1 \<Rightarrow> (Inr job2, s1)))))"

record IngestionStats =
  total :: nat
  byStatus :: "(IngestionStatus \<times> nat) list"
  byType :: "(string \<times> nat) list"
  averageDuration :: int

text \<open>
  \<^verbatim>\<open>getIngestionStats\<close>. The \<^verbatim>\<open>find\<close> of the completed jobs selects only
  \<^verbatim>\<open>startedAt\<close> and \<^verbatim>\<open>completedAt\<close>, and TypeORM builds no entity from a row whose
  selected columns are all NULL, so such a row is not among \<^verbatim>\<open>completedJobs\<close>.
  \<^verbatim>\<open>Math.floor(totalDuration / completedJobs.length / 1000)\<close> is taken over the reals:
  the operands are integers far below \<open>2^53\<close>, where the floating-point quotient has the
  same floor.
\<close>

definition getIngestionStats :: "state \<Rightarrow> IngestionStats" where
  "getIngestionStats s =
     (let rows = ingestionJobRepository s;
          statusCounts =
            [count_where (\<lambda>j. status j = PENDING) rows,
             count_where (\<lambda>j. status j = PROCESSING) rows,
             count_where (\<lambda>j. status j = COMPLETED) rows,
             count_where (\<lambda>j. status j = FAILED) rows,
             count_where (\<lambda>j. status j = CANCELLED) rows];
          typeCounts =
            [count_where (\<lambda>j. ingestionType j = SINGLE_DOCUMENT) rows,
             count_where (\<lambda>j. ingestionType j = BATCH_DOCUMENTS) rows,
             count_where (\<lambda>j. ingestionType j = REPROCESS) rows];
          completedJobs =
            filter (\<lambda>j. status j = COMPLETED \<and> \<not> (startedAt j = None \<and> completedAt j = None))
                   rows;
          totalDuration =
            foldl (\<lambda>sum job.
                     (case startedAt job of
                        None \<Rightarrow> sum
                      | Some a \<Rightarrow> (case completedAt job of None \<Rightarrow> sum | Some b \<Rightarrow> sum + (b - a))))
                  0 completedJobs;
          avg = (if length completedJobs > 0
                 then \<lfloor>real_of_int totalDuration / real (length completedJobs) / 1000\<rfloor>
                 else 0)
      in \<lparr> total = length rows,
           byStatus = [(PENDING, statusCounts ! 0), (PROCESSING, statusCounts ! 1),
                       (COMPLETED, statusCounts ! 2), (FAILED, statusCounts ! 3),
                       (CANCELLED, statusCounts ! 4)],
           byType = [(SINGLE_DOCUMENT, typeCounts ! 0), (BATCH_DOCUMENTS, typeCounts ! 1),
                     (REPROCESS, typeCounts ! 2)],
           averageDuration = avg \<rparr>)"

definition prepareIngestionPayload :: "state \<Rightarrow> IngestionJob \<Rightarrow> exception + payload" where
  "prepareIngestionPayload s job =
     (let payload0 =
            \<lparr> job_id = id_job job,
              ingestion_type = ingestionType job,
              configuration_p = (case truthy (configuration job) of None \<Rightarrow> ''{}'' | Some c \<Rightarrow> c),
              document = None,
              documents = None \<rparr>
      in (case (if ingestionType job = SINGLE_DOCUMENT then truthy (documentId job) else None) of
            Some d \<Rightarrow>
              (case documentsService_findById s d of
                 Inl e \<Rightarrow> Inl e
               | Inr doc \<Rightarrow>
                   Inr (payload0\<lparr>document :=
                          Some \<lparr> id_p = id_doc doc, title_p = title doc, file_path = filePath doc,
                                 mime_type = mimeType doc, file_size = fileSize doc \<rparr>\<rparr>))
          | None \<Rightarrow>
              (if ingestionType job = BATCH_DOCUMENTS
               then Inr (payload0\<lparr>documents := Some []\<rparr>)
               else Inr payload0)))"

text \<open>
  \<^verbatim>\<open>triggerIngestion\<close> is split where the source awaits the HTTP call.
  \<open>triggerIngestion_start\<close> is the function up to \<^verbatim>\<open>axios.post\<close>: it returns the job
  object the function holds, and either the payload to post or the message of an
  exception thrown inside the \<^verbatim>\<open>try\<close> block before the call. \<open>Inl\<close> is the rejection
  of \<^verbatim>\<open>findById\<close>, which stands before the \<^verbatim>\<open>try\<close>.
\<close>

definition triggerIngestion_start ::
  "state \<Rightarrow> string \<Rightarrow> Date \<Rightarrow> exception + (IngestionJob \<times> (string + payload) \<times> state)" where
  "triggerIngestion_start s jobId now =
     (case findById s jobId of
        Inl e \<Rightarrow> Inl e
      | Inr job0 \<Rightarrow>
          (let job1 = job0\<lparr>status := PROCESSING\<rparr>;
               job = job1\<lparr>startedAt := Some now\<rparr>
           in (case save_job s job of
                 Inl e \<Rightarrow> Inr (job, Inl (message e), s)
               | Inr s1 \<Rightarrow>
                   (case truthy (documentId job) of
                      None \<Rightarrow>
                        (case prepareIngestionPayload s1 job of
                           Inl e \<Rightarrow> Inr (job, Inl (message e), s1)
                         | Inr p \<Rightarrow> Inr (job, Inr p, s1))
                    | Some d \<Rightarrow>
                        (case documentsService_updateStatus s1 d PROCESSING_doc now of
                           (Inl e, s2) \<Rightarrow> Inr (job, Inl (message e), s2)
                         | (Inr doc, s2) \<Rightarrow>
                             (case prepareIngestionPayload s2 job of
                                Inl e \<Rightarrow> Inr (job, Inl (message e), s2)
                              | Inr p \<Rightarrow> Inr (job, Inr p, s2)))))))"

text \<open>
  The \<^verbatim>\<open>finally\<close> block: the job object is saved; \<open>r\<close> is how the function would
  complete otherwise. An exception of \<^verbatim>\<open>save\<close> replaces it.
\<close>

definition triggerIngestion_finally ::
  "state \<Rightarrow> IngestionJob \<Rightarrow> exception + unit \<Rightarrow> (exception + unit) \<times> state" where
  "triggerIngestion_finally s job r =
     (case save_job s job of
        Inl e \<Rightarrow> (Inl e, s)
      | Inr s1 \<Rightarrow> (r, s1))"

text \<open>
  The \<^verbatim>\<open>catch\<close> block followed by the \<^verbatim>\<open>finally\<close> block, for an error with message
  \<open>msg\<close>. When \<^verbatim>\<open>updateStatus\<close> throws inside the \<^verbatim>\<open>catch\<close> block, \<^verbatim>\<open>finally\<close> still
  runs and the promise is rejected.
\<close>

definition triggerIngestion_catch ::
  "state \<Rightarrow> IngestionJob \<Rightarrow> string \<Rightarrow> Date \<Rightarrow> (exception + unit) \<times> state" where
  "triggerIngestion_catch s job msg now =
     (let job1 = job\<lparr>status := FAILED\<rparr>;
          job2 = job1\<lparr>completedAt := Some now\<rparr>;
          job3 = job2\<lparr>errorMessage :=
                   Some (if msg = [] then ''Unknown error occurred'' else msg)\<rparr>
      in (case truthy (documentId job3) of
            None \<Rightarrow> triggerIngestion_finally s job3 (Inr ())
          | Some d \<Rightarrow>
              (case documentsService_updateStatus s d ERROR now of
                 (Inl e, s1) \<Rightarrow> triggerIngestion_finally s1 job3 (Inl e)
               | (Inr doc, s1) \<Rightarrow> triggerIngestion_finally s1 job3 (Inr ()))))"

text \<open>
  The rest of \<^verbatim>\<open>triggerIngestion\<close>, from the outcome of the HTTP call (\<open>Inr\<close> the
  response data, \<open>Inl\<close> the message of the error) or from the error thrown before it.
  \<open>tDone\<close>, \<open>tDoc\<close> and \<open>tFail\<close> are the clock readings of the success branch, of
  \<^verbatim>\<open>updateStatus\<close> and of the \<^verbatim>\<open>catch\<close> block.
\<close>

definition triggerIngestion_complete ::
  "state \<Rightarrow> IngestionJob \<Rightarrow> string + json \<Rightarrow> Date \<Rightarrow> Date \<Rightarrow> Date \<Rightarrow> (exception + unit) \<times> state" where
  "triggerIngestion_complete s job outcome tDone tDoc tFail =
     (case outcome of
        Inl msg \<Rightarrow> triggerIngestion_catch s job msg tFail
      | Inr response_data \<Rightarrow>
          (let job1 = job\<lparr>status := COMPLETED\<rparr>;
               job2 = job1\<lparr>completedAt := Some tDone\<rparr>;
               job3 = job2\<lparr>result := Some response_data\<rparr>;
               job4 = job3\<lparr>progress := 100\<rparr>
           in (case truthy (documentId job4) of
                 None \<Rightarrow> triggerIngestion_finally s job4 (Inr ())
               | Some d \<Rightarrow>
                   (case documentsService_updateStatus s d PROCESSED tDoc of
                      (Inl e, s1) \<Rightarrow> triggerIngestion_catch s1 job4 (message e) tFail
                    | (Inr doc, s1) \<Rightarrow> triggerIngestion_finally s1 job4 (Inr ())))))"

text \<open>
  \<^verbatim>\<open>triggerIngestion\<close> run without interruption; \<open>post\<close> is the processing backend
  behind \<^verbatim>\<open>axios.post\<close>.
\<close>

definition triggerIngestion ::
  "(payload \<Rightarrow> string + json) \<Rightarrow> state \<Rightarrow> string \<Rightarrow> Date \<Rightarrow> Date \<Rightarrow> Date \<Rightarrow> Date
     \<Rightarrow> (exception + unit) \<times> state" where
  "triggerIngestion post s jobId tStart tDone tDoc tFail =
     (case triggerIngestion_start s jobId tStart of
        Inl e \<Rightarrow> (Inl e, s)
      | Inr (job, Inl msg, s1) \<Rightarrow> triggerIngestion_complete s1 job (Inl msg) tDone tDoc tFail
      | Inr (job, Inr p, s1) \<Rightarrow> triggerIngestion_complete s1 job (post p) tDone tDoc tFail)"

subsection \<open>Runs of the service\<close>

text \<open>
  A configuration is the store together with the dispatches that have posted their
  payload and wait for the backend: each holds the job object it loaded and its payload
  (or the error it already met). Events are the service's operations; the documents
  belong to another service and may change at any time, and a dispatch that is waiting
  goes on with the object it holds. In these runs a dispatch may be started for any job
  at any time, which covers the dispatches that \<^verbatim>\<open>create\<close> and \<^verbatim>\<open>retry\<close> start.
\<close>

record config =
  store :: state
  inflight :: "(IngestionJob \<times> (string + payload)) list"

datatype event =
    Create CreateIngestionJobDto string string
  | Retry string
  | Cancel string Date
  | DispatchStart string Date
  | DispatchComplete nat "string + json" Date Date Date
  | DocumentsChanged "Document list"

fun step :: "config \<Rightarrow> event \<Rightarrow> config" where
  "step c (Create dto userId newId) = c\<lparr>store := snd (create (store c) dto userId newId)\<rparr>"
| "step c (Retry i) = c\<lparr>store := snd (retry (store c) i)\<rparr>"
| "step c (Cancel i now) = c\<lparr>store := snd (cancel (store c) i now)\<rparr>"
| "step c (DispatchStart i now) =
     (case triggerIngestion_start (store c) i now of
        Inl e \<Rightarrow> c
      | Inr (job, p, s1) \<Rightarrow> \<lparr>store = s1, inflight = inflight c @ [(job, p)]\<rparr>)"
| "step c (DispatchComplete k response tDone tDoc tFail) =
     (if k < length (inflight c) then
        (case inflight c ! k of
           (job, Inl msg) \<Rightarrow>
             \<lparr>store = snd (triggerIngestion_complete (store c) job (Inl msg) tDone tDoc tFail),
              inflight = take k (inflight c) @ drop (Suc k) (inflight c)\<rparr>
         | (job, Inr p) \<Rightarrow>
             \<lparr>store = snd (triggerIngestion_complete (store c) job response tDone tDoc tFail),
              inflight = take k (inflight c) @ drop (Suc k) (inflight c)\<rparr>)
      else c)"
| "step c (DocumentsChanged ds) = c\<lparr>store := documents_replaced (store c) ds\<rparr>"

definition run :: "event list \<Rightarrow> config \<Rightarrow> config" where
  "run evs c = foldl step c evs"

definition init :: "Document list \<Rightarrow> string list \<Rightarrow> config" where
  "init ds us =
     \<lparr>store = \<lparr>ingestionJobRepository = [], documentRepository = ds, userRepository = us\<rparr>,
      inflight = []\<rparr>"

text \<open>
  The runs in which dispatches start only where the source starts them.
  \<^verbatim>\<open>triggerIngestion\<close> is private and is called in two places: by \<^verbatim>\<open>create\<close> after
  it saved the new job and by \<^verbatim>\<open>retry\<close> after it saved the reset job, in both without
  being awaited. \<open>scheduled\<close> lists the job ids of the calls that were made and have
  not yet loaded their job; \<open>DispatchStart\<close> takes one of them. The store generates a
  fresh id for every job it inserts: \<open>used\<close> lists the ids generated so far, and an
  event \<open>Create\<close> that proposes one of them does not happen.
\<close>

record scheduled_config =
  cfg :: config
  scheduled :: "string list"
  used :: "string list"

fun scheduled_step :: "scheduled_config \<Rightarrow> event \<Rightarrow> scheduled_config" where
  "scheduled_step sc (Create dto userId newId) =
     (if newId \<in> set (used sc) then sc
      else (case fst (create (store (cfg sc)) dto userId newId) of
              Inl e \<Rightarrow> sc
            | Inr job \<Rightarrow>
                \<lparr>cfg = step (cfg sc) (Create dto userId newId),
                 scheduled = scheduled sc @ [newId],
                 used = newId # used sc\<rparr>))"
| "scheduled_step sc (Retry i) =
     (case fst (retry (store (cfg sc)) i) of
        Inl e \<Rightarrow> sc
      | Inr job \<Rightarrow> sc\<lparr>cfg := step (cfg sc) (Retry i), scheduled := scheduled sc @ [i]\<rparr>)"
| "scheduled_step sc (Cancel i now) = sc\<lparr>cfg := step (cfg sc) (Cancel i now)\<rparr>"
| "scheduled_step sc (DispatchStart i now) =
     (if i \<in> set (scheduled sc)
      then sc\<lparr>cfg := step (cfg sc) (DispatchStart i now),
              scheduled := remove1 i (scheduled sc)\<rparr>
      else sc)"
| "scheduled_step sc (DispatchComplete k response tDone tDoc tFail) =
     sc\<lparr>cfg := step (cfg sc) (DispatchComplete k response tDone tDoc tFail)\<rparr>"
| "scheduled_step sc (DocumentsChanged ds) = sc\<lparr>cfg := step (cfg sc) (DocumentsChanged ds)\<rparr>"

definition scheduled_run :: "event list \<Rightarrow> scheduled_config \<Rightarrow> scheduled_config" where
  "scheduled_run evs sc = foldl scheduled_step sc evs"

definition scheduled_init :: "Document list \<Rightarrow> string list \<Rightarrow> scheduled_config" where
  "scheduled_init ds us = \<lparr>cfg = init ds us, scheduled = [], used = []\<rparr>"

subsection \<open>The average duration as the specification words it\<close>

text \<open>
  The mean, in seconds, of \<^verbatim>\<open>completedAt - startedAt\<close> over exactly the COMPLETED jobs
  that have both timestamps, and 0 when there is no COMPLETED job.
\<close>

definition spec_averageDuration :: "IngestionJob list \<Rightarrow> real" where
  "spec_averageDuration rows =
     (let durations = List.map_filter duration (filter (\<lambda>j. status j = COMPLETED) rows)
      in if filter (\<lambda>j. status j = COMPLETED) rows = [] then 0
         else real_of_int (sum_list durations) / real (length durations) / 1000)"

subsection \<open>Invariants of runs\<close>

definition retry_bounded :: "IngestionJob \<Rightarrow> bool" where
  "retry_bounded j = (retryCount j \<le> maxRetries j)"

definition inv_retry :: "config \<Rightarrow> bool" where
  "inv_retry c = (list_all retry_bounded (ingestionJobRepository (store c))
                \<and> list_all (\<lambda>x. retry_bounded (fst x)) (inflight c))"

text \<open>
  What scheduled runs keep, for the rows \<open>R\<close>, the documents \<open>D\<close>, the waiting
  dispatches \<open>F\<close>, the scheduled job ids \<open>S\<close> and the generated ids \<open>U\<close>: only a
  COMPLETED row has a progress other than 0, and the job objects held by dispatches have
  progress 0; every row satisfies the foreign key; no job has two dispatches outstanding
  (scheduled or waiting), and a COMPLETED or FAILED row has none; every id in use was
  generated.
\<close>

definition consistent ::
  "IngestionJob list \<Rightarrow> Document list \<Rightarrow> (IngestionJob \<times> (string + payload)) list
     \<Rightarrow> string list \<Rightarrow> string list \<Rightarrow> bool" where
  "consistent R D F S U =
     (list_all (\<lambda>j. status j = COMPLETED \<or> progress j = 0) R
      \<and> list_all (\<lambda>x. progress (fst x) = 0) F
      \<and> list_all (foreign_key_holds D) R
      \<and> distinct (S @ map (\<lambda>x. id_job (fst x)) F)
      \<and> list_all (\<lambda>j. (status j \<noteq> COMPLETED \<and> status j \<noteq> FAILED)
                       \<or> id_job j \<notin> set (S @ map (\<lambda>x. id_job (fst x)) F)) R
      \<and> list_all (\<lambda>j. id_job j \<in> set U) R
      \<and> list_all (\<lambda>i. i \<in> set U) (S @ map (\<lambda>x. id_job (fst x)) F))"

definition scheduled_inv :: "scheduled_config \<Rightarrow> bool" where
  "scheduled_inv sc =
     consistent (ingestionJobRepository (store (cfg sc))) (documentRepository (store (cfg sc)))
                (inflight (cfg sc)) (scheduled sc) (used sc)"

subsection \<open>Example data\<close>

definition example_doc :: Document where
  "example_doc = \<lparr> id_doc = ''d1'', title = ''Report'', filePath = ''/uploads/report.pdf'',
                   mimeType = ''application/pdf'', fileSize = 2048, status_doc = UPLOADED,
                   lastProcessedAt = None \<rparr>"

definition example_dto :: CreateIngestionJobDto where
  "example_dto = \<lparr> name_dto = None, description_dto = None,
                   ingestionType_dto = Some SINGLE_DOCUMENT, documentId_dto = Some ''d1'',
                   documentIds = None, configuration_dto = None \<rparr>"

definition example_job :: "string \<Rightarrow> IngestionStatus \<Rightarrow> Date option \<Rightarrow> Date option \<Rightarrow> IngestionJob" where
  "example_job i st a b =
     \<lparr> id_job = i, name = None, description = None, status = st,
       ingestionType = SINGLE_DOCUMENT, configuration = None, result = None,
       errorMessage = None, startedAt = a, completedAt = b, progress = 0, retryCount = 0,
       maxRetries = 3, triggeredById = Some ''u1'', documentId = Some ''d1'' \<rparr>"

definition example_state :: "IngestionJob list \<Rightarrow> state" where
  "example_state rows =
     \<lparr> ingestionJobRepository = rows, documentRepository = [example_doc],
       userRepository = [''u1''] \<rparr>"

section \<open>Verification\<close>

subsection \<open>Repositories\<close>

lemma findOne_job_SomeD: "findOne_job rows i = Some j \<Longrightarrow> id_job j = i \<and> j \<in> set rows"
  unfolding findOne_job_def by (induction rows) (auto split: if_splits)

lemma findOne_job_None: "findOne_job rows i = None \<Longrightarrow> r \<in> set rows \<Longrightarrow> id_job r \<noteq> i"
  unfolding findOne_job_def by (induction rows) (auto split: if_splits)

lemma findOne_job_map_replace:
  "findOne_job rows (id_job j) = Some old \<Longrightarrow>
   findOne_job (map (\<lambda>r. if id_job r = id_job j then j else r) rows) (id_job j) = Some j"
  unfolding findOne_job_def by (induction rows) (auto split: if_splits)

lemma findOne_job_append_new:
  "findOne_job rows (id_job j) = None \<Longrightarrow> findOne_job (rows @ [j]) (id_job j) = Some j"
  unfolding findOne_job_def by (induction rows) (auto split: if_splits)

lemma findOne_doc_SomeD: "findOne_doc rows i = Some d \<Longrightarrow> id_doc d = i \<and> d \<in> set rows"
  unfolding findOne_doc_def by (induction rows) (auto split: if_splits)

lemma findOne_doc_map_replace:
  "findOne_doc (map (\<lambda>r. if id_doc r = id_doc d then d else r) rows) i
     = (if i = id_doc d then map_option (\<lambda>r. d) (findOne_doc rows i) else findOne_doc rows i)"
  unfolding findOne_doc_def by (induction rows) auto

lemma findOne_doc_append:
  "findOne_doc (rows @ [d]) i
     = (case findOne_doc rows i of None \<Rightarrow> (if id_doc d = i then Some d else None) | Some r \<Rightarrow> Some r)"
  unfolding findOne_doc_def by (induction rows) auto

lemma findOne_doc_save_doc:
  "findOne_doc (save_doc rows d) i = (if i = id_doc d then Some d else findOne_doc rows i)"
  by (cases "findOne_doc rows (id_doc d)")
     (auto simp: save_doc_def findOne_doc_map_replace findOne_doc_append split: option.splits)

lemma foreign_key_save_doc:
  "foreign_key_holds docs j \<Longrightarrow> foreign_key_holds (save_doc docs d) j"
  by (auto simp: foreign_key_holds_def findOne_doc_save_doc split: option.splits)

lemma foreign_key_same_document:
  "documentId j = documentId j' \<Longrightarrow> foreign_key_holds docs j = foreign_key_holds docs j'"
  by (simp add: foreign_key_holds_def)

lemma findById_SomeD:
  "findById s i = Inr job \<Longrightarrow>
   id_job job = i \<and> job \<in> set (ingestionJobRepository s)
   \<and> findOne_job (ingestionJobRepository s) i = Some job"
  by (auto simp: findById_def split: option.splits dest: findOne_job_SomeD)

lemma findById_list_all:
  "findById s i = Inr job \<Longrightarrow> list_all P (ingestionJobRepository s) \<Longrightarrow> P job"
  by (auto simp: list_all_iff dest: findById_SomeD)

text \<open>What a successful \<open>save_job\<close> leaves behind.\<close>

lemma save_job_Inr:
  assumes "save_job s j = Inr s'"
  shows "documentRepository s' = documentRepository s"
    and "userRepository s' = userRepository s"
    and "findById s' (id_job j) = Inr j"
    and "\<And>r. r \<in> set (ingestionJobRepository s') \<Longrightarrow>
           r = j \<or> (r \<in> set (ingestionJobRepository s) \<and> id_job r \<noteq> id_job j)"
proof -
  show "documentRepository s' = documentRepository s" "userRepository s' = userRepository s"
    using assms
    by (auto simp: save_job_def insert_job_def split: option.splits if_splits)
  show "findById s' (id_job j) = Inr j"
    using assms
    by (auto simp: save_job_def insert_job_def findById_def findOne_job_append_new
          findOne_job_map_replace split: option.splits if_splits)
  fix r assume "r \<in> set (ingestionJobRepository s')"
  with assms show "r = j \<or> (r \<in> set (ingestionJobRepository s) \<and> id_job r \<noteq> id_job j)"
    by (auto simp: save_job_def insert_job_def split: option.splits if_splits
          dest: findOne_job_None)
qed

lemma save_job_list_all:
  assumes "save_job s j = Inr s'" and "list_all P (ingestionJobRepository s)" and "P j"
  shows "list_all P (ingestionJobRepository s')"
  using assms save_job_Inr(4)[OF assms(1)] by (auto simp: list_all_iff)

lemma save_job_loaded:
  assumes "findById s i = Inr job" and "id_job j = i" and "documentId j = documentId job"
  shows "save_job s j =
     Inr (s\<lparr>ingestionJobRepository :=
              map (\<lambda>r. if id_job r = i then j else r) (ingestionJobRepository s)\<rparr>)"
  using assms by (auto simp: save_job_def dest: findById_SomeD)

lemma save_job_foreign_key:
  assumes "save_job s j = Inr s'"
    and "list_all (foreign_key_holds (documentRepository s)) (ingestionJobRepository s)"
  shows "foreign_key_holds (documentRepository s) j"
proof (cases "findOne_job (ingestionJobRepository s) (id_job j)")
  case None
  with assms(1) show ?thesis
    by (auto simp: save_job_def insert_job_def split: if_splits)
next
  case (Some old)
  then have "old \<in> set (ingestionJobRepository s)" by (auto dest: findOne_job_SomeD)
  with assms(2) have "foreign_key_holds (documentRepository s) old" by (simp add: list_all_iff)
  with Some assms(1) show ?thesis
    by (auto simp: save_job_def foreign_key_same_document[of old j] split: if_splits)
qed

lemma updateStatus_jobs [simp]:
  "ingestionJobRepository (snd (documentsService_updateStatus s d st t)) = ingestionJobRepository s"
  by (simp add: documentsService_updateStatus_def Let_def split: sum.splits)

lemma updateStatus_users [simp]:
  "userRepository (snd (documentsService_updateStatus s d st t)) = userRepository s"
  by (simp add: documentsService_updateStatus_def Let_def split: sum.splits)

lemma updateStatus_foreign_key:
  "foreign_key_holds (documentRepository s) j \<Longrightarrow>
   foreign_key_holds (documentRepository (snd (documentsService_updateStatus s d st t))) j"
  by (simp add: documentsService_updateStatus_def Let_def foreign_key_save_doc split: sum.splits)

lemma updateStatus_Inl:
  "documentsService_updateStatus s d st t = (Inl e, s') \<Longrightarrow>
   s' = s \<and> findOne_doc (documentRepository s) d = None \<and> e = NotFoundException ''Document not found''"
  by (auto simp: documentsService_updateStatus_def documentsService_findById_def Let_def
        split: option.splits)

lemma updateStatus_Inr:
  assumes "documentsService_updateStatus s d st t = (Inr doc, s')"
  shows "findOne_doc (documentRepository s') d = Some doc \<and> status_doc doc = st
       \<and> ingestionJobRepository s' = ingestionJobRepository s"
proof -
  from assms obtain d0 where f: "findOne_doc (documentRepository s) d = Some d0"
    by (auto simp: documentsService_updateStatus_def documentsService_findById_def
          split: option.splits)
  then have idd: "id_doc d0 = d" by (auto dest: findOne_doc_SomeD)
  from assms f have doc: "doc = (if st = PROCESSED
        then d0\<lparr>status_doc := st, lastProcessedAt := Some t\<rparr> else d0\<lparr>status_doc := st\<rparr>)"
    and s': "s' = s\<lparr>documentRepository := save_doc (documentRepository s) doc\<rparr>"
    by (auto simp: documentsService_updateStatus_def documentsService_findById_def Let_def)
  from doc idd have "id_doc doc = d" by (simp split: if_splits)
  with doc s' show ?thesis by (simp add: findOne_doc_save_doc split: if_splits)
qed

lemma updateStatus_found:
  assumes "findOne_doc (documentRepository s) d = Some d0"
  shows "\<exists>doc s'. documentsService_updateStatus s d st t = (Inr doc, s')"
  using assms
  by (simp add: documentsService_updateStatus_def documentsService_findById_def Let_def)

subsection \<open>Unfolding the service on concrete stores\<close>

lemmas example_defs = example_doc_def example_dto_def example_job_def example_state_def
  SINGLE_DOCUMENT_def BATCH_DOCUMENTS_def REPROCESS_def

lemmas service_defs = findById_def findOne_job_def save_job_def insert_job_def
  foreign_key_holds_def documents_replaced_def findOne_doc_def save_doc_def
  documentsService_findById_def documentsService_updateStatus_def truthy_def
  isCompleted_def isFailed_def canRetry_def validateIngestionJobDto_def create_def retry_def
  cancel_def prepareIngestionPayload_def triggerIngestion_start_def triggerIngestion_finally_def
  triggerIngestion_catch_def triggerIngestion_complete_def triggerIngestion_def run_def init_def
  scheduled_run_def scheduled_init_def Let_def

subsection \<open>What the operations do to the store\<close>

lemma retry_outcome:
  assumes "findById s i = Inr job"
  shows "retry s i =
     (if status job = FAILED \<and> retryCount job < maxRetries job
      then (Inr (job\<lparr>status := PENDING, retryCount := retryCount job + 1, errorMessage := None,
                     startedAt := None, completedAt := None\<rparr>),
            s\<lparr>ingestionJobRepository :=
                 map (\<lambda>r. if id_job r = i
                           then job\<lparr>status := PENDING, retryCount := retryCount job + 1,
                                    errorMessage := None, startedAt := None, completedAt := None\<rparr>
                           else r) (ingestionJobRepository s)\<rparr>)
      else (Inl (BadRequestException ''Job cannot be retried''), s))"
proof -
  let ?j = "job\<lparr>status := PENDING, retryCount := retryCount job + 1, errorMessage := None,
                startedAt := None, completedAt := None\<rparr>"
  from assms have "id_job job = i" by (auto dest: findById_SomeD)
  then have "save_job s ?j = Inr (s\<lparr>ingestionJobRepository :=
              map (\<lambda>r. if id_job r = i then ?j else r) (ingestionJobRepository s)\<rparr>)"
    using save_job_loaded[OF assms, of ?j] by simp
  with assms show ?thesis
    by (simp add: retry_def canRetry_def isFailed_def Let_def)
qed

lemma cancel_outcome:
  assumes "findById s i = Inr job"
  shows "cancel s i now =
     (if status job = COMPLETED \<or> status job = FAILED
      then (Inl (BadRequestException ''Cannot cancel completed or failed job''), s)
      else (Inr (job\<lparr>status := CANCELLED, completedAt := Some now\<rparr>),
            s\<lparr>ingestionJobRepository :=
                 map (\<lambda>r. if id_job r = i
                           then job\<lparr>status := CANCELLED, completedAt := Some now\<rparr> else r)
                     (ingestionJobRepository s)\<rparr>))"
proof -
  let ?j = "job\<lparr>status := CANCELLED, completedAt := Some now\<rparr>"
  from assms have "id_job job = i" by (auto dest: findById_SomeD)
  then have "save_job s ?j = Inr (s\<lparr>ingestionJobRepository :=
              map (\<lambda>r. if id_job r = i then ?j else r) (ingestionJobRepository s)\<rparr>)"
    using save_job_loaded[OF assms, of ?j] by simp
  with assms show ?thesis
    by (simp add: cancel_def isCompleted_def isFailed_def Let_def)
qed

lemma retry_not_found: "findById s i = Inl e \<Longrightarrow> retry s i = (Inl e, s)"
  by (simp add: retry_def)

lemma cancel_not_found: "findById s i = Inl e \<Longrightarrow> cancel s i now = (Inl e, s)"
  by (simp add: cancel_def)

text \<open>
  \<open>triggerIngestion_start\<close>: the job it holds is the stored job set to PROCESSING, the
  save of that job always succeeds (it is the row just read), and the rest only touches
  the documents.
\<close>

lemma start_Inr:
  assumes "triggerIngestion_start s jobId now = Inr (job, q, s1)"
  shows "\<exists>job0. findById s jobId = Inr job0
       \<and> job = job0\<lparr>status := PROCESSING, startedAt := Some now\<rparr>
       \<and> id_job job = jobId
       \<and> ingestionJobRepository s1 =
           map (\<lambda>r. if id_job r = jobId then job else r) (ingestionJobRepository s)
       \<and> userRepository s1 = userRepository s
       \<and> (\<forall>j. foreign_key_holds (documentRepository s) j
               \<longrightarrow> foreign_key_holds (documentRepository s1) j)"
proof -
  from assms obtain job0 where f: "findById s jobId = Inr job0"
    by (auto simp: triggerIngestion_start_def split: sum.splits)
  let ?job = "job0\<lparr>status := PROCESSING, startedAt := Some now\<rparr>"
  let ?s0 = "s\<lparr>ingestionJobRepository :=
              map (\<lambda>r. if id_job r = jobId then ?job else r) (ingestionJobRepository s)\<rparr>"
  from f have idj: "id_job job0 = jobId" by (auto dest: findById_SomeD)
  then have sv: "save_job s ?job = Inr ?s0"
    using save_job_loaded[OF f, of ?job] by simp
  have j: "job = ?job"
    using assms f sv
    by (auto simp: triggerIngestion_start_def Let_def split: option.splits sum.splits prod.splits)
  have "s1 = ?s0 \<or> s1 = snd (documentsService_updateStatus ?s0 (the (truthy (documentId ?job)))
                                  PROCESSING_doc now)"
    using assms f sv
    by (auto simp: triggerIngestion_start_def Let_def split: option.splits sum.splits prod.splits)
  then have "ingestionJobRepository s1 = ingestionJobRepository ?s0
      \<and> userRepository s1 = userRepository ?s0
      \<and> (\<forall>j. foreign_key_holds (documentRepository ?s0) j
               \<longrightarrow> foreign_key_holds (documentRepository s1) j)"
    by (auto simp: updateStatus_foreign_key)
  with f j idj show ?thesis by simp
qed

text \<open>
  \<open>triggerIngestion_finally\<close>, \<open>triggerIngestion_catch\<close> and
  \<open>triggerIngestion_complete\<close>: the store they leave is the store after the document
  updates, with or without the held job saved into it.
\<close>

lemma finally_effect:
  "triggerIngestion_finally s job r = (r', s') \<Longrightarrow> s' = s \<or> save_job s job = Inr s'"
  by (auto simp: triggerIngestion_finally_def split: sum.splits)

lemma catch_effect:
  assumes "triggerIngestion_catch s job msg now = (r, s')"
  shows "\<exists>s1. s1 = (case truthy (documentId job) of
                      None \<Rightarrow> s
                    | Some d \<Rightarrow> snd (documentsService_updateStatus s d ERROR now))
      \<and> (s' = s1 \<or> save_job s1 (job\<lparr>status := FAILED, completedAt := Some now,
              errorMessage := Some (if msg = [] then ''Unknown error occurred'' else msg)\<rparr>)
            = Inr s')"
  using assms
  by (cases "truthy (documentId job)")
     (auto simp: triggerIngestion_catch_def Let_def split: prod.splits sum.splits
        dest!: finally_effect)

lemma complete_effect:
  assumes "triggerIngestion_complete s job outcome tDone tDoc tFail = (r, s')"
  shows "\<exists>s1 jf. ingestionJobRepository s1 = ingestionJobRepository s
      \<and> userRepository s1 = userRepository s
      \<and> (\<forall>j. foreign_key_holds (documentRepository s) j
              \<longrightarrow> foreign_key_holds (documentRepository s1) j)
      \<and> (s' = s1 \<or> save_job s1 jf = Inr s')
      \<and> id_job jf = id_job job \<and> documentId jf = documentId job
      \<and> retryCount jf = retryCount job \<and> maxRetries jf = maxRetries job
      \<and> (status jf = COMPLETED \<or> (status jf = FAILED \<and> progress jf = progress job)
           \<or> \<not> foreign_key_holds (documentRepository s1) jf)"
proof (cases outcome)
  case (Inl msg)
  let ?s1 = "case truthy (documentId job) of
               None \<Rightarrow> s | Some d \<Rightarrow> snd (documentsService_updateStatus s d ERROR tFail)"
  let ?jf = "job\<lparr>status := FAILED, completedAt := Some tFail,
                 errorMessage := Some (if msg = [] then ''Unknown error occurred'' else msg)\<rparr>"
  from Inl assms have "s' = ?s1 \<or> save_job ?s1 ?jf = Inr s'"
    using catch_effect[of s job msg tFail r s'] by (simp add: triggerIngestion_complete_def)
  moreover have "ingestionJobRepository ?s1 = ingestionJobRepository s
      \<and> userRepository ?s1 = userRepository s
      \<and> (\<forall>j. foreign_key_holds (documentRepository s) j
              \<longrightarrow> foreign_key_holds (documentRepository ?s1) j)"
    by (simp add: updateStatus_foreign_key split: option.splits)
  ultimately show ?thesis
    by (intro exI[of _ ?s1] exI[of _ ?jf]) simp
next
  case (Inr response_data)
  let ?j4 = "job\<lparr>status := COMPLETED, completedAt := Some tDone,
                 result := Some response_data, progress := 100\<rparr>"
  show ?thesis
  proof (cases "truthy (documentId job)")
    case None
    with Inr assms have "s' = s \<or> save_job s ?j4 = Inr s'"
      by (auto simp: triggerIngestion_complete_def Let_def dest!: finally_effect)
    then show ?thesis
      by (intro exI[of _ s] exI[of _ ?j4]) simp
  next
    case (Some d)
    obtain u s1 where u: "documentsService_updateStatus s d PROCESSED tDoc = (u, s1)"
      by (cases "documentsService_updateStatus s d PROCESSED tDoc")
    then have s1: "s1 = snd (documentsService_updateStatus s d PROCESSED tDoc)" by simp
    have pres: "ingestionJobRepository s1 = ingestionJobRepository s
      \<and> userRepository s1 = userRepository s
      \<and> (\<forall>j. foreign_key_holds (documentRepository s) j
              \<longrightarrow> foreign_key_holds (documentRepository s1) j)"
      unfolding s1 by (simp add: updateStatus_foreign_key)
    show ?thesis
    proof (cases u)
      case ok: (Inr doc)
      with Inr Some u assms have "s' = s1 \<or> save_job s1 ?j4 = Inr s'"
        by (auto simp: triggerIngestion_complete_def Let_def dest!: finally_effect)
      with pres show ?thesis
        by (intro exI[of _ s1] exI[of _ ?j4]) simp
    next
      case (Inl e)
      with u have gone: "s1 = s" "findOne_doc (documentRepository s) d = None"
        using updateStatus_Inl by blast+
      let ?jf = "?j4\<lparr>status := FAILED, completedAt := Some tFail,
                     errorMessage := Some (if message e = [] then ''Unknown error occurred''
                                           else message e)\<rparr>"
      from gone have same: "snd (documentsService_updateStatus s d ERROR tFail) = s"
        by (simp add: documentsService_updateStatus_def documentsService_findById_def)
      from Inr Some u Inl gone assms
      have "triggerIngestion_catch s ?j4 (message e) tFail = (r, s')"
        by (simp add: triggerIngestion_complete_def Let_def)
      from catch_effect[OF this] Some same have "s' = s \<or> save_job s ?jf = Inr s'"
        by simp
      moreover from Some have "documentId job = Some d"
        by (auto simp: truthy_def split: option.splits if_splits)
      with gone have "\<not> foreign_key_holds (documentRepository s) ?jf"
        by (simp add: foreign_key_holds_def)
      ultimately show ?thesis
        by (intro exI[of _ s] exI[of _ ?jf]) simp
    qed
  qed
qed

subsection \<open>retry: the guard and the bound on retryCount\<close>

lemma create_effect:
  "create s dto u n = (r, s') \<Longrightarrow>
   s' = s \<or> (\<exists>job. r = Inr job \<and> insert_job s job = Inr s' \<and> id_job job = n
               \<and> status job = PENDING \<and> progress job = 0 \<and> retryCount job = 0
               \<and> maxRetries job = 3)"
  by (auto simp: create_def Let_def split: sum.splits option.splits)

lemma insert_job_Inr:
  "insert_job s j = Inr s' \<Longrightarrow>
   ingestionJobRepository s' = ingestionJobRepository s @ [j]
   \<and> documentRepository s' = documentRepository s \<and> userRepository s' = userRepository s
   \<and> foreign_key_holds (documentRepository s) j"
  by (auto simp: insert_job_def split: if_splits)

lemma create_bounded:
  "list_all retry_bounded (ingestionJobRepository s) \<Longrightarrow>
   list_all retry_bounded (ingestionJobRepository (snd (create s dto u n)))"
  using create_effect[of s dto u n "fst (create s dto u n)" "snd (create s dto u n)"]
  by (auto simp: retry_bounded_def dest!: insert_job_Inr)

lemma retry_bounded_retry:
  assumes "list_all retry_bounded (ingestionJobRepository s)"
  shows "list_all retry_bounded (ingestionJobRepository (snd (retry s i)))"
proof (cases "findById s i")
  case (Inl e)
  with assms show ?thesis by (simp add: retry_not_found)
next
  case (Inr job)
  with assms have "retry_bounded job" by (rule findById_list_all[rotated])
  with Inr assms show ?thesis
    by (auto simp: retry_outcome retry_bounded_def list_all_iff)
qed

lemma cancel_bounded:
  assumes "list_all retry_bounded (ingestionJobRepository s)"
  shows "list_all retry_bounded (ingestionJobRepository (snd (cancel s i now)))"
proof (cases "findById s i")
  case (Inl e)
  with assms show ?thesis by (simp add: cancel_not_found)
next
  case (Inr job)
  with assms have "retry_bounded job" by (rule findById_list_all[rotated])
  with Inr assms show ?thesis
    by (auto simp: cancel_outcome retry_bounded_def list_all_iff)
qed

lemma start_bounded:
  assumes "list_all retry_bounded (ingestionJobRepository s)"
    and "triggerIngestion_start s i now = Inr (job, p, s1)"
  shows "retry_bounded job \<and> list_all retry_bounded (ingestionJobRepository s1)"
proof -
  from start_Inr[OF assms(2)] obtain job0 where f: "findById s i = Inr job0"
    and j: "job = job0\<lparr>status := PROCESSING, startedAt := Some now\<rparr>"
    and rows: "ingestionJobRepository s1 =
           map (\<lambda>r. if id_job r = i then job else r) (ingestionJobRepository s)"
    by blast
  from f assms(1) have "retry_bounded job0" by (rule findById_list_all)
  with j have "retry_bounded job" by (simp add: retry_bounded_def)
  with rows assms(1) show ?thesis by (auto simp: list_all_iff)
qed

lemma complete_bounded:
  assumes "list_all retry_bounded (ingestionJobRepository s)" and "retry_bounded job"
  shows "list_all retry_bounded
           (ingestionJobRepository (snd (triggerIngestion_complete s job outcome tDone tDoc tFail)))"
proof -
  obtain r s' where c: "triggerIngestion_complete s job outcome tDone tDoc tFail = (r, s')"
    by (cases "triggerIngestion_complete s job outcome tDone tDoc tFail")
  from complete_effect[OF c] obtain s1 jf where
    rows: "ingestionJobRepository s1 = ingestionJobRepository s"
    and sv: "s' = s1 \<or> save_job s1 jf = Inr s'"
    and same: "retryCount jf = retryCount job" "maxRetries jf = maxRetries job"
    by blast
  from same assms(2) have "retry_bounded jf" by (simp add: retry_bounded_def)
  with sv rows assms(1) have "list_all retry_bounded (ingestionJobRepository s')"
    by (auto intro: save_job_list_all)
  with c show ?thesis by simp
qed

lemma list_all_remove_nth: "list_all P xs \<Longrightarrow> list_all P (take k xs @ drop (Suc k) xs)"
  by (auto simp: list_all_iff dest: in_set_takeD in_set_dropD)

lemma step_inv_retry: "inv_retry c \<Longrightarrow> inv_retry (step c ev)"
proof (cases ev)
  case (Create dto u n)
  assume "inv_retry c"
  with Create show ?thesis by (simp add: inv_retry_def create_bounded)
next
  case (Retry i)
  assume "inv_retry c"
  with Retry show ?thesis by (simp add: inv_retry_def retry_bounded_retry)
next
  case (Cancel i now)
  assume "inv_retry c"
  with Cancel show ?thesis by (simp add: inv_retry_def cancel_bounded)
next
  case (DispatchStart i now)
  assume a: "inv_retry c"
  show ?thesis
  proof (cases "triggerIngestion_start (store c) i now")
    case (Inl e)
    with a DispatchStart show ?thesis by simp
  next
    case (Inr x)
    obtain job p s1 where x: "x = (job, p, s1)" by (cases x)
    from a have "list_all retry_bounded (ingestionJobRepository (store c))"
      by (simp add: inv_retry_def)
    with Inr x have "retry_bounded job \<and> list_all retry_bounded (ingestionJobRepository s1)"
      using start_bounded by blast
    with a Inr x DispatchStart show ?thesis by (simp add: inv_retry_def)
  qed
next
  case (DispatchComplete k response tDone tDoc tFail)
  assume a: "inv_retry c"
  show ?thesis
  proof (cases "k < length (inflight c)")
    case False
    with a DispatchComplete show ?thesis by simp
  next
    case True
    obtain job p where kp: "inflight c ! k = (job, p)" by (cases "inflight c ! k")
    from a True kp have bj: "retry_bounded job"
      by (auto simp: inv_retry_def list_all_length)
    from a have rows: "list_all retry_bounded (ingestionJobRepository (store c))"
      by (simp add: inv_retry_def)
    from a have "list_all (\<lambda>x. retry_bounded (fst x)) (inflight c)"
      by (simp add: inv_retry_def)
    then have rest: "list_all (\<lambda>x. retry_bounded (fst x))
        (take k (inflight c) @ drop (Suc k) (inflight c))"
      by (rule list_all_remove_nth)
    from rows bj have "\<And>outcome. list_all retry_bounded (ingestionJobRepository
        (snd (triggerIngestion_complete (store c) job outcome tDone tDoc tFail)))"
      by (rule complete_bounded)
    with True kp rest DispatchComplete show ?thesis
      by (cases p) (simp_all add: inv_retry_def)
  qed
next
  case (DocumentsChanged ds)
  assume "inv_retry c"
  with DocumentsChanged show ?thesis
    by (auto simp: inv_retry_def documents_replaced_def list_all_iff)
qed

lemma run_inv_retry: "inv_retry c \<Longrightarrow> inv_retry (run evs c)"
  unfolding run_def by (induction evs arbitrary: c) (simp_all add: step_inv_retry)

text \<open>
  C3. For a job that exists, \<^verbatim>\<open>retry\<close> succeeds exactly when the job is FAILED with
  \<open>retryCount < maxRetries\<close>; otherwise it throws the 400 exception
  \<^verbatim>\<open>Job cannot be retried\<close> and leaves the store as it was. Consequently every job in
  the store after any run of create, retry, cancel and dispatch (started and completed
  in any interleaving, from a store without jobs) has \<open>retryCount \<le> maxRetries\<close>.
\<close>

theorem retry_guard_and_retryCount_bound:
  "(findById s i = Inr job \<longrightarrow>
      (case retry s i of
         (Inr job', s') \<Rightarrow> status job = FAILED \<and> retryCount job < maxRetries job
       | (Inl e, s') \<Rightarrow> \<not> (status job = FAILED \<and> retryCount job < maxRetries job)
            \<and> e = BadRequestException ''Job cannot be retried'' \<and> s' = s))
   \<and> (\<forall>j \<in> set (ingestionJobRepository (store (run evs (init ds us)))).
         retryCount j \<le> maxRetries j)"
proof -
  have "inv_retry (init ds us)" by (simp add: inv_retry_def init_def)
  then have "inv_retry (run evs (init ds us))" by (rule run_inv_retry)
  then have "\<forall>j \<in> set (ingestionJobRepository (store (run evs (init ds us)))).
         retryCount j \<le> maxRetries j"
    by (simp add: inv_retry_def list_all_iff retry_bounded_def)
  moreover have "findById s i = Inr job \<longrightarrow>
      (case retry s i of
         (Inr job', s') \<Rightarrow> status job = FAILED \<and> retryCount job < maxRetries job
       | (Inl e, s') \<Rightarrow> \<not> (status job = FAILED \<and> retryCount job < maxRetries job)
            \<and> e = BadRequestException ''Job cannot be retried'' \<and> s' = s)"
    by (auto simp: retry_outcome)
  ultimately show ?thesis by blast
qed

theorem retry_guard_and_retryCount_bound_witness:
  "findById (example_state [example_job ''j1'' FAILED (Some 1000) (Some 2000)]) ''j1''
     = Inr (example_job ''j1'' FAILED (Some 1000) (Some 2000))
   \<and> fst (retry (example_state [example_job ''j1'' FAILED (Some 1000) (Some 2000)]) ''j1'')
       = Inr ((example_job ''j1'' PENDING None None)\<lparr>retryCount := 1\<rparr>)
   \<and> map (\<lambda>j. (retryCount j, maxRetries j))
        (ingestionJobRepository (store (run [Create example_dto ''u1'' ''j1'']
           (init [example_doc] [''u1''])))) = [(0, 3)]"
  using retry_guard_and_retryCount_bound
    [of "example_state [example_job ''j1'' FAILED (Some 1000) (Some 2000)]" "''j1''"
        "example_job ''j1'' FAILED (Some 1000) (Some 2000)"
        "[Create example_dto ''u1'' ''j1'']" "[example_doc]" "[''u1'']"]
  by (simp add: example_defs service_defs)

subsection \<open>cancel: what it writes\<close>

lemma cancel_pending_or_processing:
  assumes "findById s i = Inr job" and "status job = PENDING \<or> status job = PROCESSING"
  shows "fst (cancel s i now) = Inr (job\<lparr>status := CANCELLED, completedAt := Some now\<rparr>)"
  using assms by (auto simp: cancel_outcome)

lemma cancel_completed_or_failed:
  assumes "findById s i = Inr job" and "status job = COMPLETED \<or> status job = FAILED"
  shows "cancel s i now = (Inl (BadRequestException ''Cannot cancel completed or failed job''), s)"
  using assms by (auto simp: cancel_outcome)

text \<open>
  C10. A successful \<^verbatim>\<open>cancel\<close> leaves the documents (and the users) untouched, whatever
  status the referenced document has, and the only row it rewrites is the cancelled
  job's, in which only \<open>status\<close> and \<open>completedAt\<close> change.
\<close>

theorem cancel_frame:
  assumes "cancel s i now = (Inr job', s')"
  shows "documentRepository s' = documentRepository s \<and> userRepository s' = userRepository s
       \<and> (\<exists>job. findById s i = Inr job \<and> status job \<noteq> COMPLETED \<and> status job \<noteq> FAILED
            \<and> job' = job\<lparr>status := CANCELLED, completedAt := Some now\<rparr>
            \<and> ingestionJobRepository s' =
                map (\<lambda>r. if id_job r = i then job' else r) (ingestionJobRepository s))"
proof -
  from assms obtain job where f: "findById s i = Inr job"
    by (auto simp: cancel_def split: sum.splits)
  from assms show ?thesis
    unfolding cancel_outcome[OF f] using f by (auto split: if_splits)
qed

theorem cancel_frame_witness:
  "cancel \<lparr> ingestionJobRepository = [example_job ''j1'' PROCESSING (Some 1000) None],
            documentRepository = [example_doc\<lparr>status_doc := PROCESSING_doc\<rparr>],
            userRepository = [''u1''] \<rparr> ''j1'' 2000
     = (Inr (example_job ''j1'' CANCELLED (Some 1000) (Some 2000)),
        \<lparr> ingestionJobRepository = [example_job ''j1'' CANCELLED (Some 1000) (Some 2000)],
          documentRepository = [example_doc\<lparr>status_doc := PROCESSING_doc\<rparr>],
          userRepository = [''u1''] \<rparr>)"
proof -
  have c: "cancel \<lparr> ingestionJobRepository = [example_job ''j1'' PROCESSING (Some 1000) None],
            documentRepository = [example_doc\<lparr>status_doc := PROCESSING_doc\<rparr>],
            userRepository = [''u1''] \<rparr> ''j1'' 2000
     = (Inr (example_job ''j1'' CANCELLED (Some 1000) (Some 2000)),
        \<lparr> ingestionJobRepository = [example_job ''j1'' CANCELLED (Some 1000) (Some 2000)],
          documentRepository = [example_doc\<lparr>status_doc := PROCESSING_doc\<rparr>],
          userRepository = [''u1''] \<rparr>)"
    by (simp add: example_defs service_defs)
  from cancel_frame[OF c] c show ?thesis by simp
qed

text \<open>
  C1. \<^verbatim>\<open>cancel\<close> refuses COMPLETED and FAILED jobs only. A job that is created and
  cancelled at time 1000 is CANCELLED with \<open>completedAt = 1000\<close>; cancelling it again at
  time 2000 does not throw: it returns the job with \<open>completedAt = 2000\<close> and saves it.
\<close>

theorem cancel_accepts_cancelled_job:
  "store (run [Create example_dto ''u1'' ''j1'', Cancel ''j1'' 1000] (init [example_doc] [''u1'']))
     = example_state [example_job ''j1'' CANCELLED None (Some 1000)]
   \<and> cancel (example_state [example_job ''j1'' CANCELLED None (Some 1000)]) ''j1'' 2000
     = (Inr (example_job ''j1'' CANCELLED None (Some 2000)),
        example_state [example_job ''j1'' CANCELLED None (Some 2000)])"
  by (simp add: example_defs service_defs)

subsection \<open>create: validation before persistence\<close>

lemma ingestionType_distinct:
  "SINGLE_DOCUMENT \<noteq> BATCH_DOCUMENTS" "BATCH_DOCUMENTS \<noteq> SINGLE_DOCUMENT"
  "SINGLE_DOCUMENT \<noteq> REPROCESS" "REPROCESS \<noteq> SINGLE_DOCUMENT"
  "BATCH_DOCUMENTS \<noteq> REPROCESS" "REPROCESS \<noteq> BATCH_DOCUMENTS"
  by (simp_all add: SINGLE_DOCUMENT_def BATCH_DOCUMENTS_def REPROCESS_def)

lemma find_user: "find (\<lambda>uid. uid = u) us = (if u \<in> set us then Some u else None)"
  by (induction us) auto

lemma verify_documents_eq:
  "verify_documents s ids =
     (if list_ex (\<lambda>i. findOne_doc (documentRepository s) i = None) ids
      then Inl (NotFoundException ''Document not found'') else Inr ())"
  by (induction ids) (auto simp: documentsService_findById_def split: option.splits)

lemma create_error_keeps_store: "create s dto userId newId = (Inl e, s') \<Longrightarrow> s' = s"
  by (auto simp: create_def Let_def split: sum.splits option.splits)

text \<open>
  After its validation \<^verbatim>\<open>create\<close> looks the caller up and inserts the job; the store
  refuses the insert when the job's \<^verbatim>\<open>documentId\<close> names no document.
\<close>

lemma create_after_validation:
  assumes "validateIngestionJobDto s dto = Inr ()"
  shows "create s dto userId newId =
     (if userId \<notin> set (userRepository s) then (Inl (NotFoundException ''User not found''), s)
      else if (case documentId_dto dto of
                 None \<Rightarrow> False
               | Some d \<Rightarrow> findOne_doc (documentRepository s) d = None)
      then (Inl (QueryFailedError ''FOREIGN KEY constraint failed''), s)
      else (Inr \<lparr> id_job = newId, name = name_dto dto, description = description_dto dto,
                  status = PENDING,
                  ingestionType = (case ingestionType_dto dto of None \<Rightarrow> SINGLE_DOCUMENT | Some t \<Rightarrow> t),
                  configuration = configuration_dto dto, result = None, errorMessage = None,
                  startedAt = None, completedAt = None, progress = 0, retryCount = 0,
                  maxRetries = 3, triggeredById = Some userId,
                  documentId = documentId_dto dto \<rparr>,
            s\<lparr>ingestionJobRepository := ingestionJobRepository s @
                [\<lparr> id_job = newId, name = name_dto dto, description = description_dto dto,
                  status = PENDING,
                  ingestionType = (case ingestionType_dto dto of None \<Rightarrow> SINGLE_DOCUMENT | Some t \<Rightarrow> t),
                  configuration = configuration_dto dto, result = None, errorMessage = None,
                  startedAt = None, completedAt = None, progress = 0, retryCount = 0,
                  maxRetries = 3, triggeredById = Some userId,
                  documentId = documentId_dto dto \<rparr>]\<rparr>))"
  using assms
  by (auto simp: create_def find_user Let_def insert_job_def foreign_key_holds_def
        split: option.splits)

lemma validate_batch:
  assumes "ingestionType_dto dto = Some BATCH_DOCUMENTS"
  shows "validateIngestionJobDto s dto =
     (case documentIds dto of
        None \<Rightarrow> Inl (BadRequestException ''Document IDs are required for batch ingestion'')
      | Some ids \<Rightarrow>
          if ids = [] then Inl (BadRequestException ''Document IDs are required for batch ingestion'')
          else verify_documents s ids)"
  using assms
  by (simp add: validateIngestionJobDto_def ingestionType_distinct split: option.splits)

text \<open>
  C7. For a BATCH_DOCUMENTS request, \<^verbatim>\<open>create\<close> throws the 400 exception when
  \<^verbatim>\<open>documentIds\<close> is missing or empty, and the 404 exception \<^verbatim>\<open>Document not found\<close>
  when some id of a non-empty \<^verbatim>\<open>documentIds\<close> has no document; whenever \<^verbatim>\<open>create\<close>
  throws, the store is as before (no job row), and when it returns a job, every id
  resolved.
\<close>

theorem create_batch_validated_before_persisting:
  assumes "ingestionType_dto dto = Some BATCH_DOCUMENTS"
  shows "(documentIds dto = None \<or> documentIds dto = Some [] \<longrightarrow>
            create s dto userId newId =
              (Inl (BadRequestException ''Document IDs are required for batch ingestion''), s))
       \<and> (\<forall>ids. documentIds dto = Some ids \<and> ids \<noteq> []
              \<and> (\<exists>i \<in> set ids. findOne_doc (documentRepository s) i = None) \<longrightarrow>
            create s dto userId newId = (Inl (NotFoundException ''Document not found''), s))
       \<and> (\<forall>e s'. create s dto userId newId = (Inl e, s') \<longrightarrow> s' = s)
       \<and> (\<forall>job s'. create s dto userId newId = (Inr job, s') \<longrightarrow>
            (\<exists>ids. documentIds dto = Some ids \<and> ids \<noteq> []
               \<and> (\<forall>i \<in> set ids. findOne_doc (documentRepository s) i \<noteq> None)))"
proof -
  note v = validate_batch[OF assms, of s]
  have a: "documentIds dto = None \<or> documentIds dto = Some [] \<longrightarrow>
            create s dto userId newId =
              (Inl (BadRequestException ''Document IDs are required for batch ingestion''), s)"
    using v by (auto simp: create_def)
  have b: "\<forall>ids. documentIds dto = Some ids \<and> ids \<noteq> []
              \<and> (\<exists>i \<in> set ids. findOne_doc (documentRepository s) i = None) \<longrightarrow>
            create s dto userId newId = (Inl (NotFoundException ''Document not found''), s)"
    using v by (auto simp: create_def verify_documents_eq list_ex_iff)
  have c: "\<forall>e s'. create s dto userId newId = (Inl e, s') \<longrightarrow> s' = s"
    by (auto dest: create_error_keeps_store)
  have d: "\<forall>job s'. create s dto userId newId = (Inr job, s') \<longrightarrow>
            (\<exists>ids. documentIds dto = Some ids \<and> ids \<noteq> []
               \<and> (\<forall>i \<in> set ids. findOne_doc (documentRepository s) i \<noteq> None))"
    using v
    by (auto simp: create_def verify_documents_eq list_ex_iff
          split: option.splits sum.splits if_splits)
  from a b c d show ?thesis by blast
qed

theorem create_batch_validated_before_persisting_witness:
  "ingestionType_dto
      (example_dto\<lparr>ingestionType_dto := Some BATCH_DOCUMENTS, documentId_dto := None,
                    documentIds := Some [''d1'', ''d2'']\<rparr>) = Some BATCH_DOCUMENTS
   \<and> findOne_doc (documentRepository (example_state [])) ''d1'' = Some example_doc
   \<and> findOne_doc (documentRepository (example_state [])) ''d2'' = None
   \<and> create (example_state [])
      (example_dto\<lparr>ingestionType_dto := Some BATCH_DOCUMENTS, documentId_dto := None,
                    documentIds := Some []\<rparr>) ''u1'' ''j1''
     = (Inl (BadRequestException ''Document IDs are required for batch ingestion''),
        example_state [])
   \<and> create (example_state [])
      (example_dto\<lparr>ingestionType_dto := Some BATCH_DOCUMENTS, documentId_dto := None,
                    documentIds := Some [''d1'', ''d2'']\<rparr>) ''u1'' ''j1''
     = (Inl (NotFoundException ''Document not found''), example_state [])
   \<and> fst (create (example_state [])
      (example_dto\<lparr>ingestionType_dto := Some BATCH_DOCUMENTS, documentId_dto := None,
                    documentIds := Some [''d1'']\<rparr>) ''u1'' ''j1'')
     = Inr ((example_job ''j1'' PENDING None None)
              \<lparr>ingestionType := BATCH_DOCUMENTS, documentId := None\<rparr>)"
  using create_batch_validated_before_persisting
     [of "example_dto\<lparr>ingestionType_dto := Some BATCH_DOCUMENTS, documentId_dto := None,
                    documentIds := Some []\<rparr>" "example_state []" "''u1''" "''j1''"]
    create_batch_validated_before_persisting
     [of "example_dto\<lparr>ingestionType_dto := Some BATCH_DOCUMENTS, documentId_dto := None,
                    documentIds := Some [''d1'', ''d2'']\<rparr>" "example_state []" "''u1''" "''j1''"]
    create_batch_validated_before_persisting
     [of "example_dto\<lparr>ingestionType_dto := Some BATCH_DOCUMENTS, documentId_dto := None,
                    documentIds := Some [''d1'']\<rparr>" "example_state []" "''u1''" "''j1''"]
  by (simp add: example_defs service_defs)

text \<open>
  C9, as stated, fails in its last clause. \<^verbatim>\<open>create\<close> does not look the document of
  a REPROCESS request up, but the store does: with a \<^verbatim>\<open>documentId\<close> that names no
  document the insert violates the foreign key, \<^verbatim>\<open>create\<close> throws and no job is stored.
\<close>

theorem create_reprocess_dangling_document_refused:
  "findOne_doc (documentRepository (example_state [])) ''ghost'' = None
   \<and> create (example_state [])
      (example_dto\<lparr>ingestionType_dto := Some REPROCESS, documentId_dto := Some ''ghost''\<rparr>)
      ''u1'' ''j1''
     = (Inl (QueryFailedError ''FOREIGN KEY constraint failed''), example_state [])"
  by (simp add: example_defs service_defs)

text \<open>
  C9, amended. For a REPROCESS request \<^verbatim>\<open>validateIngestionJobDto\<close> checks nothing, so
  \<^verbatim>\<open>create\<close> never throws the 400 exception and never a 404 for the document. For an
  existing caller it persists a PENDING job carrying the request's \<^verbatim>\<open>documentId\<close> when
  that is absent or names an existing document; when it names no document the store's
  foreign key refuses the insert and nothing is persisted. For an unknown caller it throws
  the 404 \<^verbatim>\<open>User not found\<close>.
\<close>

theorem create_reprocess_unvalidated:
  assumes "ingestionType_dto dto = Some REPROCESS"
  shows "validateIngestionJobDto s dto = Inr ()
       \<and> (userId \<in> set (userRepository s)
            \<and> (documentId_dto dto = None
                \<or> (\<exists>d doc. documentId_dto dto = Some d
                      \<and> findOne_doc (documentRepository s) d = Some doc)) \<longrightarrow>
            (\<exists>job. create s dto userId newId =
                 (Inr job, s\<lparr>ingestionJobRepository := ingestionJobRepository s @ [job]\<rparr>)
               \<and> id_job job = newId \<and> status job = PENDING \<and> ingestionType job = REPROCESS
               \<and> documentId job = documentId_dto dto))
       \<and> (userId \<in> set (userRepository s)
            \<and> (\<exists>d. documentId_dto dto = Some d
                  \<and> findOne_doc (documentRepository s) d = None) \<longrightarrow>
            create s dto userId newId
              = (Inl (QueryFailedError ''FOREIGN KEY constraint failed''), s))
       \<and> (userId \<notin> set (userRepository s) \<longrightarrow>
            create s dto userId newId = (Inl (NotFoundException ''User not found''), s))"
proof -
  have v: "validateIngestionJobDto s dto = Inr ()"
    using assms by (simp add: validateIngestionJobDto_def ingestionType_distinct)
  show ?thesis
    using assms by (auto simp: v create_after_validation[OF v] split: option.splits)
qed

theorem create_reprocess_unvalidated_witness:
  "ingestionType_dto
      (example_dto\<lparr>ingestionType_dto := Some REPROCESS, documentId_dto := Some ''ghost''\<rparr>)
     = Some REPROCESS
   \<and> findOne_doc (documentRepository (example_state [])) ''ghost'' = None
   \<and> findOne_doc (documentRepository (example_state [])) ''d1'' = Some example_doc
   \<and> create (example_state [])
      (example_dto\<lparr>ingestionType_dto := Some REPROCESS, documentId_dto := None\<rparr>) ''u1'' ''j1''
     = (Inr ((example_job ''j1'' PENDING None None)
               \<lparr>ingestionType := REPROCESS, documentId := None\<rparr>),
        example_state [(example_job ''j1'' PENDING None None)
               \<lparr>ingestionType := REPROCESS, documentId := None\<rparr>])
   \<and> create (example_state []) (example_dto\<lparr>ingestionType_dto := Some REPROCESS\<rparr>)
      ''u1'' ''j1''
     = (Inr ((example_job ''j1'' PENDING None None)\<lparr>ingestionType := REPROCESS\<rparr>),
        example_state [(example_job ''j1'' PENDING None None)\<lparr>ingestionType := REPROCESS\<rparr>])
   \<and> create (example_state [])
      (example_dto\<lparr>ingestionType_dto := Some REPROCESS, documentId_dto := Some ''ghost''\<rparr>)
      ''u1'' ''j1''
     = (Inl (QueryFailedError ''FOREIGN KEY constraint failed''), example_state [])
   \<and> create (example_state [])
      (example_dto\<lparr>ingestionType_dto := Some REPROCESS, documentId_dto := None\<rparr>) ''u2'' ''j1''
     = (Inl (NotFoundException ''User not found''), example_state [])"
  using create_reprocess_unvalidated
     [of "example_dto\<lparr>ingestionType_dto := Some REPROCESS, documentId_dto := None\<rparr>"
         "example_state []" "''u1''" "''j1''"]
    create_reprocess_unvalidated
     [of "example_dto\<lparr>ingestionType_dto := Some REPROCESS\<rparr>"
         "example_state []" "''u1''" "''j1''"]
    create_reprocess_unvalidated
     [of "example_dto\<lparr>ingestionType_dto := Some REPROCESS, documentId_dto := Some ''ghost''\<rparr>"
         "example_state []" "''u1''" "''j1''"]
    create_reprocess_unvalidated
     [of "example_dto\<lparr>ingestionType_dto := Some REPROCESS, documentId_dto := None\<rparr>"
         "example_state []" "''u2''" "''j1''"]
  by (simp add: example_defs service_defs)

subsection \<open>create: the ingestion type\<close>




subsection \<open>Statistics: the average duration\<close>

lemma totalDuration_foldl:
  "foldl (\<lambda>sum job.
            (case startedAt job of
               None \<Rightarrow> sum
             | Some a \<Rightarrow> (case completedAt job of None \<Rightarrow> sum | Some b \<Rightarrow> sum + (b - a))))
         acc jobs
   = acc + sum_list (List.map_filter duration jobs)"
  by (induction jobs arbitrary: acc)
     (auto simp: duration_def split: option.splits)

lemma length_map_filter_duration:
  "\<forall>j \<in> set jobs. duration j \<noteq> None \<Longrightarrow> length (List.map_filter duration jobs) = length jobs"
  by (induction jobs) (auto split: option.splits)

lemma averageDuration_eq:
  "averageDuration (getIngestionStats s) =
     (if filter (\<lambda>j. status j = COMPLETED \<and> \<not> (startedAt j = None \<and> completedAt j = None))
           (ingestionJobRepository s) = [] then 0
      else \<lfloor>real_of_int (sum_list (List.map_filter duration
                 (filter (\<lambda>j. status j = COMPLETED
                               \<and> \<not> (startedAt j = None \<and> completedAt j = None))
                         (ingestionJobRepository s))))
            / real (length (filter (\<lambda>j. status j = COMPLETED
                                          \<and> \<not> (startedAt j = None \<and> completedAt j = None))
                                   (ingestionJobRepository s)))
            / 1000\<rfloor>)"
  by (simp add: getIngestionStats_def Let_def totalDuration_foldl)

text \<open>
  C6, as stated, fails twice. Two COMPLETED jobs that took 1000 ms and 2000 ms have a
  mean of 1.5 seconds, and \<^verbatim>\<open>getIngestionStats\<close> reports 1. A COMPLETED job of
  10000 ms beside a COMPLETED job without \<open>startedAt\<close> has a mean, over the jobs with both
  timestamps, of 10 seconds, and \<^verbatim>\<open>getIngestionStats\<close> reports 5.
\<close>

theorem averageDuration_not_the_mean:
  "averageDuration (getIngestionStats (example_state
       [example_job ''j1'' COMPLETED (Some 0) (Some 1000),
        example_job ''j2'' COMPLETED (Some 0) (Some 2000)])) = 1
   \<and> spec_averageDuration
       [example_job ''j1'' COMPLETED (Some 0) (Some 1000),
        example_job ''j2'' COMPLETED (Some 0) (Some 2000)] = 3 / 2
   \<and> averageDuration (getIngestionStats (example_state
       [example_job ''j1'' COMPLETED (Some 0) (Some 10000),
        example_job ''j2'' COMPLETED None (Some 500)])) = 5
   \<and> spec_averageDuration
       [example_job ''j1'' COMPLETED (Some 0) (Some 10000),
        example_job ''j2'' COMPLETED None (Some 500)] = 10"
  by (simp add: averageDuration_eq spec_averageDuration_def example_state_def example_job_def
        duration_def)

text \<open>
  C6, amended. When every COMPLETED job has both timestamps, \<open>averageDuration\<close> is the
  mean of \<^verbatim>\<open>completedAt - startedAt\<close> over the COMPLETED jobs, in seconds, rounded down
  to a whole number; it is 0 when there is no COMPLETED job.
\<close>

theorem averageDuration_floor_of_mean:
  assumes "\<forall>j \<in> set (ingestionJobRepository s). status j = COMPLETED \<longrightarrow> duration j \<noteq> None"
  shows "averageDuration (getIngestionStats s) = \<lfloor>spec_averageDuration (ingestionJobRepository s)\<rfloor>
       \<and> (filter (\<lambda>j. status j = COMPLETED) (ingestionJobRepository s) = [] \<longrightarrow>
            averageDuration (getIngestionStats s) = 0)"
proof -
  let ?c = "filter (\<lambda>j. status j = COMPLETED) (ingestionJobRepository s)"
  from assms have "\<forall>j \<in> set ?c. duration j \<noteq> None" by simp
  then have len: "length (List.map_filter duration ?c) = length ?c"
    by (rule length_map_filter_duration)
  from assms have "filter (\<lambda>j. status j = COMPLETED
                               \<and> \<not> (startedAt j = None \<and> completedAt j = None))
                         (ingestionJobRepository s) = ?c"
    by (intro filter_cong) (auto simp: duration_def split: option.splits)
  with len show ?thesis
    by (simp add: averageDuration_eq spec_averageDuration_def Let_def)
qed

theorem averageDuration_floor_of_mean_witness:
  "duration (example_job ''j1'' COMPLETED (Some 7000) (Some 12000)) = Some 5000
   \<and> averageDuration (getIngestionStats (example_state
       [example_job ''j1'' COMPLETED (Some 7000) (Some 12000)])) = 5
   \<and> spec_averageDuration [example_job ''j1'' COMPLETED (Some 7000) (Some 12000)] = 5
   \<and> averageDuration (getIngestionStats (example_state
       [example_job ''j1'' PENDING None None])) = 0"
  using averageDuration_floor_of_mean
     [of "example_state [example_job ''j1'' COMPLETED (Some 7000) (Some 12000)]"]
    averageDuration_floor_of_mean
     [of "example_state [example_job ''j1'' PENDING None None]"]
  by (simp add: averageDuration_eq spec_averageDuration_def example_state_def example_job_def
        duration_def)

subsection \<open>Dispatch: the completion after a successful call\<close>

lemma findById_rows:
  "ingestionJobRepository s1 = ingestionJobRepository s \<Longrightarrow> findById s1 i = findById s i"
  by (simp add: findById_def)

lemma save_job_succeeds:
  assumes "foreign_key_holds (documentRepository s) j"
  shows "\<exists>s'. save_job s j = Inr s'"
  using assms by (simp add: save_job_def insert_job_def split: option.splits)

lemma finally_saved:
  assumes "save_job s j = Inr s'"
  shows "triggerIngestion_finally s j r = (r, s')"
  using assms by (simp add: triggerIngestion_finally_def)

text \<open>
  C5, as stated, fails. A job is created for the document \<open>d1\<close> and its dispatch posts
  the payload; while the call is pending the document is removed, and the job row with
  it. The call then succeeds, but the update of the document throws, the \<^verbatim>\<open>catch\<close>
  block takes over and the final save is refused: no COMPLETED job is persisted and no
  document is PROCESSED.
\<close>

theorem successful_call_without_completed_job:
  "inflight (run [Create example_dto ''u1'' ''j1'', DispatchStart ''j1'' 1000]
               (init [example_doc] [''u1'']))
     = [(example_job ''j1'' PROCESSING (Some 1000) None,
         Inr \<lparr> job_id = ''j1'', ingestion_type = SINGLE_DOCUMENT, configuration_p = ''{}'',
               document = Some \<lparr> id_p = ''d1'', title_p = ''Report'',
                                 file_path = ''/uploads/report.pdf'',
                                 mime_type = ''application/pdf'', file_size = 2048 \<rparr>,
               documents = None \<rparr>)]
   \<and> store (run [Create example_dto ''u1'' ''j1'', DispatchStart ''j1'' 1000,
                 DocumentsChanged [], DispatchComplete 0 (Inr ''accepted'') 6000 6001 6002]
               (init [example_doc] [''u1'']))
     = \<lparr> ingestionJobRepository = [], documentRepository = [], userRepository = [''u1''] \<rparr>"
  by (simp add: example_defs service_defs)

text \<open>
  C5, amended. When the call to the processing backend succeeds with \<open>response_data\<close>
  and, at that moment, the \<^verbatim>\<open>documentId\<close> of the job the dispatch holds is NULL or
  still names an existing document, the dispatch ends without an exception and the stored
  job is the held job with status COMPLETED, \<open>completedAt\<close> the clock reading of the
  success branch, progress 100 and \<open>result\<close> the serialised response; the document the
  job references, if any, has status PROCESSED.
\<close>

theorem dispatch_success_completes:
  assumes "foreign_key_holds (documentRepository s) job"
  shows "\<exists>s'. triggerIngestion_complete s job (Inr response_data) tDone tDoc tFail = (Inr (), s')
       \<and> findById s' (id_job job) =
           Inr (job\<lparr>status := COMPLETED, completedAt := Some tDone,
                    result := Some response_data, progress := 100\<rparr>)
       \<and> (case truthy (documentId job) of
             None \<Rightarrow> documentRepository s' = documentRepository s
           | Some d \<Rightarrow>
               (\<exists>doc. documentsService_findById s' d = Inr doc \<and> status_doc doc = PROCESSED))"
proof -
  let ?j = "job\<lparr>status := COMPLETED, completedAt := Some tDone,
                result := Some response_data, progress := 100\<rparr>"
  have same: "documentId ?j = documentId job" "id_job ?j = id_job job" by simp_all
  show ?thesis
  proof (cases "truthy (documentId job)")
    case None
    from assms have "foreign_key_holds (documentRepository s) ?j"
      by (simp add: foreign_key_holds_def)
    then obtain s' where sv: "save_job s ?j = Inr s'" using save_job_succeeds by blast
    from None sv have "triggerIngestion_complete s job (Inr response_data) tDone tDoc tFail
        = (Inr (), s')"
      by (simp add: triggerIngestion_complete_def Let_def finally_saved)
    with None save_job_Inr(1,3)[OF sv] show ?thesis by simp
  next
    case (Some d)
    then have d: "documentId job = Some d"
      by (auto simp: truthy_def split: option.splits if_splits)
    with assms obtain d0 where "findOne_doc (documentRepository s) d = Some d0"
      by (auto simp: foreign_key_holds_def)
    then obtain doc s1 where u: "documentsService_updateStatus s d PROCESSED tDoc = (Inr doc, s1)"
      using updateStatus_found by blast
    then have doc: "findOne_doc (documentRepository s1) d = Some doc" "status_doc doc = PROCESSED"
      using updateStatus_Inr by blast+
    with d have "foreign_key_holds (documentRepository s1) ?j"
      by (simp add: foreign_key_holds_def)
    then obtain s' where sv: "save_job s1 ?j = Inr s'" using save_job_succeeds by blast
    from Some u sv have "triggerIngestion_complete s job (Inr response_data) tDone tDoc tFail
        = (Inr (), s')"
      by (simp add: triggerIngestion_complete_def Let_def finally_saved)
    with Some doc save_job_Inr(1,3)[OF sv] show ?thesis
      by (simp add: documentsService_findById_def)
  qed
qed

theorem dispatch_success_completes_witness:
  "foreign_key_holds [example_doc\<lparr>status_doc := PROCESSING_doc\<rparr>]
      (example_job ''j1'' PROCESSING (Some 1000) None)
   \<and> triggerIngestion_complete
       \<lparr> ingestionJobRepository = [example_job ''j1'' PROCESSING (Some 1000) None],
         documentRepository = [example_doc\<lparr>status_doc := PROCESSING_doc\<rparr>],
         userRepository = [''u1''] \<rparr>
       (example_job ''j1'' PROCESSING (Some 1000) None) (Inr ''accepted'') 6000 6001 6002
     = (Inr (),
        \<lparr> ingestionJobRepository =
            [(example_job ''j1'' COMPLETED (Some 1000) (Some 6000))
               \<lparr>result := Some ''accepted'', progress := 100\<rparr>],
          documentRepository =
            [example_doc\<lparr>status_doc := PROCESSED, lastProcessedAt := Some 6001\<rparr>],
          userRepository = [''u1''] \<rparr>)"
  using dispatch_success_completes
    [of "\<lparr> ingestionJobRepository = [example_job ''j1'' PROCESSING (Some 1000) None],
           documentRepository = [example_doc\<lparr>status_doc := PROCESSING_doc\<rparr>],
           userRepository = [''u1''] \<rparr>"
        "example_job ''j1'' PROCESSING (Some 1000) None" "''accepted''" 6000 6001 6002]
  by (simp add: example_defs service_defs)

subsection \<open>cancel against the completion of a dispatch\<close>

lemma finally_loaded:
  assumes "findById s i = Inr stored" and "id_job j = i" and "documentId j = documentId stored"
  shows "\<exists>s'. triggerIngestion_finally s j r = (r, s') \<and> findById s' i = Inr j"
proof -
  let ?s' = "s\<lparr>ingestionJobRepository :=
              map (\<lambda>r. if id_job r = i then j else r) (ingestionJobRepository s)\<rparr>"
  have sv: "save_job s j = Inr ?s'" using assms by (rule save_job_loaded)
  have "findById ?s' (id_job j) = Inr j" using sv by (rule save_job_Inr(3))
  with assms(2) have "findById ?s' i = Inr j" by simp
  moreover have "triggerIngestion_finally s j r = (r, ?s')" using sv by (rule finally_saved)
  ultimately show ?thesis by blast
qed

lemma catch_loaded:
  assumes "findById s i = Inr stored" and "id_job job = i"
    and "documentId job = documentId stored"
  shows "\<exists>r s'. triggerIngestion_catch s job msg now = (r, s')
     \<and> findById s' i =
         Inr (job\<lparr>status := FAILED, completedAt := Some now,
                  errorMessage := Some (if msg = [] then ''Unknown error occurred'' else msg)\<rparr>)"
proof -
  let ?j = "job\<lparr>status := FAILED, completedAt := Some now,
                errorMessage := Some (if msg = [] then ''Unknown error occurred'' else msg)\<rparr>"
  have idj: "id_job ?j = i" and doc: "documentId ?j = documentId stored"
    using assms(2,3) by simp_all
  have fin: "\<exists>s'. triggerIngestion_finally s1 ?j r = (r, s') \<and> findById s' i = Inr ?j"
    if "ingestionJobRepository s1 = ingestionJobRepository s" for s1 r
  proof -
    from assms(1) have "findById s1 i = Inr stored" using findById_rows[OF that, of i] by simp
    then show ?thesis using idj doc by (rule finally_loaded)
  qed
  show ?thesis
  proof (cases "truthy (documentId job)")
    case None
    from fin[of s "Inr ()"] obtain s' where
      "triggerIngestion_finally s ?j (Inr ()) = (Inr (), s')" "findById s' i = Inr ?j"
      by auto
    with None show ?thesis by (simp add: triggerIngestion_catch_def Let_def)
  next
    case (Some d)
    obtain u s1 where u: "documentsService_updateStatus s d ERROR now = (u, s1)"
      by (cases "documentsService_updateStatus s d ERROR now")
    then have rows: "ingestionJobRepository s1 = ingestionJobRepository s"
      using updateStatus_jobs[of s d ERROR now] by simp
    show ?thesis
    proof (cases u)
      case (Inl e)
      from fin[OF rows, of "Inl e"] obtain s' where
        "triggerIngestion_finally s1 ?j (Inl e) = (Inl e, s')" "findById s' i = Inr ?j"
        by auto
      with Some u Inl show ?thesis by (simp add: triggerIngestion_catch_def Let_def)
    next
      case (Inr doc)
      from fin[OF rows, of "Inr ()"] obtain s' where
        "triggerIngestion_finally s1 ?j (Inr ()) = (Inr (), s')" "findById s' i = Inr ?j"
        by auto
      with Some u Inr show ?thesis by (simp add: triggerIngestion_catch_def Let_def)
    qed
  qed
qed




subsection \<open>retry: what it resets\<close>

text \<open>How \<open>consistent\<close> passes through the changes that the operations make.\<close>

lemma consistent_insert:
  assumes "consistent R D F S U" and "n \<notin> set U" and "id_job job = n"
    and "foreign_key_holds D job" and "status job = PENDING" and "progress job = 0"
  shows "consistent (R @ [job]) D F (S @ [n]) (n # U)"
  using assms by (auto simp: consistent_def list_all_iff)

lemma consistent_replace:
  assumes "consistent R D F S U" and "job \<in> set R" and "id_job job = i"
    and "id_job j' = i" and "documentId j' = documentId job"
    and "progress j' = 0" and "status j' \<noteq> COMPLETED" and "status j' \<noteq> FAILED"
  shows "consistent (map (\<lambda>r. if id_job r = i then j' else r) R) D F S U"
proof -
  from assms(1,2) have "foreign_key_holds D job" by (simp add: consistent_def list_all_iff)
  with assms(5) have "foreign_key_holds D j'" by (simp add: foreign_key_holds_def)
  moreover from assms(1,2,3) have "i \<in> set U" by (auto simp: consistent_def list_all_iff)
  ultimately show ?thesis
    using assms by (auto simp: consistent_def list_all_iff)
qed

lemma consistent_schedule:
  assumes "consistent R D F S U" and "i \<in> set U"
    and "i \<notin> set (S @ map (\<lambda>x. id_job (fst x)) F)"
    and "\<forall>r \<in> set R. id_job r = i \<longrightarrow> status r \<noteq> COMPLETED \<and> status r \<noteq> FAILED"
  shows "consistent R D F (S @ [i]) U"
  using assms by (auto simp: consistent_def list_all_iff)

lemma consistent_documents:
  assumes "consistent R D F S U"
    and "\<forall>j. foreign_key_holds D j \<longrightarrow> foreign_key_holds D' j"
  shows "consistent R D' F S U"
  using assms by (auto simp: consistent_def list_all_iff)

lemma consistent_documents_replaced:
  assumes "consistent R D F S U"
  shows "consistent (filter (foreign_key_holds D') R) D' F S U"
  using assms by (auto simp: consistent_def list_all_iff)

lemma consistent_unschedule:
  assumes "consistent R D F S U"
  shows "consistent R D F (remove1 i S) U"
proof -
  have "set (remove1 i S) \<subseteq> set S" by (rule set_remove1_subset)
  moreover from assms have "distinct (remove1 i S @ map (\<lambda>x. id_job (fst x)) F)"
    by (auto simp: consistent_def dest: notin_set_remove1)
  ultimately show ?thesis
    using assms by (auto simp: consistent_def list_all_iff)
qed

lemma consistent_started:
  assumes "consistent R D F S U" and "i \<in> set S" and "id_job job = i" and "progress job = 0"
  shows "consistent R D (F @ [(job, p)]) (remove1 i S) U"
proof -
  from assms(1) have d: "distinct S" "distinct (map (\<lambda>x. id_job (fst x)) F)"
    "set S \<inter> set (map (\<lambda>x. id_job (fst x)) F) = {}"
    by (auto simp: consistent_def)
  from d(1) have rm: "set (remove1 i S) = set S - {i}" by simp
  from d assms(2) have "i \<notin> set (map (\<lambda>x. id_job (fst x)) F)" by auto
  with d rm assms(2,3)
  have dist: "distinct (remove1 i S @ map (\<lambda>x. id_job (fst x)) (F @ [(job, p)]))"
    by auto
  from rm assms(2,3)
  have same: "set (remove1 i S @ map (\<lambda>x. id_job (fst x)) (F @ [(job, p)]))
      = set (S @ map (\<lambda>x. id_job (fst x)) F)"
    by auto
  from assms(1) have
    "list_all (\<lambda>j. (status j \<noteq> COMPLETED \<and> status j \<noteq> FAILED)
                     \<or> id_job j \<notin> set (S @ map (\<lambda>x. id_job (fst x)) F)) R"
    "list_all (\<lambda>i. i \<in> set U) (S @ map (\<lambda>x. id_job (fst x)) F)"
    by (simp_all add: consistent_def)
  then have
    "list_all (\<lambda>j. (status j \<noteq> COMPLETED \<and> status j \<noteq> FAILED)
         \<or> id_job j \<notin> set (remove1 i S @ map (\<lambda>x. id_job (fst x)) (F @ [(job, p)]))) R"
    "list_all (\<lambda>i. i \<in> set U) (remove1 i S @ map (\<lambda>x. id_job (fst x)) (F @ [(job, p)]))"
    unfolding list_all_iff same by simp_all
  with dist assms(1,4) show ?thesis
    by (simp add: consistent_def)
qed

lemma consistent_finished:
  assumes "consistent R D F S U" and "k < length F"
  shows "consistent R D (take k F @ drop (Suc k) F) S U"
    and "id_job (fst (F ! k)) \<notin> set (S @ map (\<lambda>x. id_job (fst x)) (take k F @ drop (Suc k) F))"
    and "id_job (fst (F ! k)) \<in> set U"
    and "progress (fst (F ! k)) = 0"
proof -
  let ?F' = "take k F @ drop (Suc k) F"
  let ?f = "\<lambda>x. id_job (fst x)"
  have F: "F = take k F @ (F ! k) # drop (Suc k) F"
    using assms(2) by (rule id_take_nth_drop)
  from assms(1) have "distinct (S @ map ?f F)" by (simp add: consistent_def)
  then have "distinct (S @ map ?f (take k F @ (F ! k) # drop (Suc k) F))"
    using F by simp
  then have dist: "distinct (S @ map ?f ?F')" and out: "?f (F ! k) \<notin> set (S @ map ?f ?F')"
    by auto
  have sub: "set ?F' \<subseteq> set F"
    by (auto dest: in_set_takeD in_set_dropD)
  then have sub': "set (S @ map ?f ?F') \<subseteq> set (S @ map ?f F)" by auto
  from assms(1) sub sub' dist show "consistent R D ?F' S U"
    unfolding consistent_def list_all_iff by (intro conjI) blast+
  from out show "id_job (fst (F ! k)) \<notin> set (S @ map ?f ?F')" .
  from assms have "F ! k \<in> set F" by simp
  with assms(1) show "id_job (fst (F ! k)) \<in> set U" "progress (fst (F ! k)) = 0"
    by (auto simp: consistent_def list_all_iff)
qed

lemma consistent_saved:
  assumes "consistent R D F S U"
    and "\<forall>r \<in> set R'. r = jf \<or> r \<in> set R"
    and "foreign_key_holds D jf" and "status jf = COMPLETED \<or> progress jf = 0"
    and "id_job jf \<notin> set (S @ map (\<lambda>x. id_job (fst x)) F)" and "id_job jf \<in> set U"
  shows "consistent R' D F S U"
proof -
  let ?O = "set (S @ map (\<lambda>x. id_job (fst x)) F)"
  from assms(1) have I:
    "\<forall>j \<in> set R. status j = COMPLETED \<or> progress j = 0"
    "\<forall>x \<in> set F. progress (fst x) = 0"
    "\<forall>j \<in> set R. foreign_key_holds D j"
    "distinct (S @ map (\<lambda>x. id_job (fst x)) F)"
    "\<forall>j \<in> set R. (status j \<noteq> COMPLETED \<and> status j \<noteq> FAILED) \<or> id_job j \<notin> ?O"
    "\<forall>j \<in> set R. id_job j \<in> set U"
    "\<forall>i \<in> ?O. i \<in> set U"
    unfolding consistent_def list_all_iff by blast+
  have row: "r = jf \<or> r \<in> set R" if "r \<in> set R'" for r
    using that assms(2) by blast
  have 1: "\<forall>j \<in> set R'. status j = COMPLETED \<or> progress j = 0"
  proof
    fix j assume "j \<in> set R'"
    with row have "j = jf \<or> j \<in> set R" by blast
    with I(1) assms(4) show "status j = COMPLETED \<or> progress j = 0" by blast
  qed
  have 3: "\<forall>j \<in> set R'. foreign_key_holds D j"
  proof
    fix j assume "j \<in> set R'"
    with row have "j = jf \<or> j \<in> set R" by blast
    with I(3) assms(3) show "foreign_key_holds D j" by blast
  qed
  have 5: "\<forall>j \<in> set R'. (status j \<noteq> COMPLETED \<and> status j \<noteq> FAILED) \<or> id_job j \<notin> ?O"
  proof
    fix j assume "j \<in> set R'"
    with row have "j = jf \<or> j \<in> set R" by blast
    with I(5) assms(5)
    show "(status j \<noteq> COMPLETED \<and> status j \<noteq> FAILED) \<or> id_job j \<notin> ?O" by blast
  qed
  have 6: "\<forall>j \<in> set R'. id_job j \<in> set U"
  proof
    fix j assume "j \<in> set R'"
    with row have "j = jf \<or> j \<in> set R" by blast
    with I(6) assms(6) show "id_job j \<in> set U" by blast
  qed
  from 1 I(2) 3 I(4) 5 6 I(7) show ?thesis
    unfolding consistent_def list_all_iff by blast
qed

lemma consistent_row:
  assumes "consistent R D F S U" and "j \<in> set R"
  shows "status j = COMPLETED \<or> progress j = 0"
    and "foreign_key_holds D j"
    and "(status j \<noteq> COMPLETED \<and> status j \<noteq> FAILED)
         \<or> id_job j \<notin> set (S @ map (\<lambda>x. id_job (fst x)) F)"
    and "id_job j \<in> set U"
  using assms unfolding consistent_def list_all_iff by blast+

text \<open>Every event of a scheduled run keeps \<open>scheduled_inv\<close>.\<close>

lemma create_Inr:
  "create s dto u n = (Inr job, s') \<Longrightarrow>
   insert_job s job = Inr s' \<and> id_job job = n \<and> status job = PENDING \<and> progress job = 0"
  by (auto simp: create_def Let_def split: sum.splits option.splits)

lemma scheduled_inv_create:
  assumes "scheduled_inv sc"
  shows "scheduled_inv (scheduled_step sc (Create dto u n))"
proof (cases "n \<in> set (used sc)")
  case True
  with assms show ?thesis by simp
next
  case False
  obtain r s' where c: "create (store (cfg sc)) dto u n = (r, s')"
    by (cases "create (store (cfg sc)) dto u n")
  show ?thesis
  proof (cases r)
    case (Inl e)
    with c False assms show ?thesis by simp
  next
    case (Inr job)
    with c have c': "create (store (cfg sc)) dto u n = (Inr job, s')" by simp
    from create_Inr[OF c'] have ins: "insert_job (store (cfg sc)) job = Inr s'"
      and p: "id_job job = n" "status job = PENDING" "progress job = 0"
      by simp_all
    from insert_job_Inr[OF ins]
    have rows: "ingestionJobRepository s' = ingestionJobRepository (store (cfg sc)) @ [job]"
      and docs: "documentRepository s' = documentRepository (store (cfg sc))"
      and fk: "foreign_key_holds (documentRepository (store (cfg sc))) job"
      by simp_all
    from assms have "consistent (ingestionJobRepository (store (cfg sc)))
        (documentRepository (store (cfg sc))) (inflight (cfg sc)) (scheduled sc) (used sc)"
      by (simp add: scheduled_inv_def)
    then have "consistent (ingestionJobRepository (store (cfg sc)) @ [job])
        (documentRepository (store (cfg sc))) (inflight (cfg sc)) (scheduled sc @ [n])
        (n # used sc)"
      using False p(1) fk p(2,3) by (rule consistent_insert)
    with c' False rows docs show ?thesis by (simp add: scheduled_inv_def)
  qed
qed

lemma scheduled_inv_retry:
  assumes "scheduled_inv sc"
  shows "scheduled_inv (scheduled_step sc (Retry i))"
proof (cases "findById (store (cfg sc)) i")
  case (Inl e)
  with assms show ?thesis by (simp add: retry_not_found)
next
  case (Inr job)
  let ?R = "ingestionJobRepository (store (cfg sc))"
  let ?D = "documentRepository (store (cfg sc))"
  let ?j = "job\<lparr>status := PENDING, retryCount := retryCount job + 1, errorMessage := None,
                startedAt := None, completedAt := None\<rparr>"
  from assms have con: "consistent ?R ?D (inflight (cfg sc)) (scheduled sc) (used sc)"
    by (simp add: scheduled_inv_def)
  from Inr have mem: "job \<in> set ?R" and idj: "id_job job = i" by (auto dest: findById_SomeD)
  show ?thesis
  proof (cases "status job = FAILED \<and> retryCount job < maxRetries job")
    case False
    with Inr have "retry (store (cfg sc)) i
        = (Inl (BadRequestException ''Job cannot be retried''), store (cfg sc))"
      by (auto simp: retry_outcome)
    with assms show ?thesis by simp
  next
    case True
    from consistent_row[OF con mem] True have p0: "progress job = 0"
      and out: "i \<notin> set (scheduled sc @ map (\<lambda>x. id_job (fst x)) (inflight (cfg sc)))"
      and gen: "i \<in> set (used sc)"
      using idj by auto
    have "consistent (map (\<lambda>r. if id_job r = i then ?j else r) ?R) ?D (inflight (cfg sc))
        (scheduled sc) (used sc)"
      using con mem idj by (rule consistent_replace) (simp_all add: idj p0)
    then have "consistent (map (\<lambda>r. if id_job r = i then ?j else r) ?R) ?D (inflight (cfg sc))
        (scheduled sc @ [i]) (used sc)"
      using gen out by (rule consistent_schedule) auto
    moreover from Inr True have "retry (store (cfg sc)) i
        = (Inr ?j, (store (cfg sc))\<lparr>ingestionJobRepository :=
                      map (\<lambda>r. if id_job r = i then ?j else r) ?R\<rparr>)"
      by (simp add: retry_outcome)
    ultimately show ?thesis by (simp add: scheduled_inv_def)
  qed
qed

lemma scheduled_inv_cancel:
  assumes "scheduled_inv sc"
  shows "scheduled_inv (scheduled_step sc (Cancel i now))"
proof (cases "findById (store (cfg sc)) i")
  case (Inl e)
  with assms show ?thesis by (simp add: cancel_not_found scheduled_inv_def)
next
  case (Inr job)
  let ?R = "ingestionJobRepository (store (cfg sc))"
  let ?D = "documentRepository (store (cfg sc))"
  let ?j = "job\<lparr>status := CANCELLED, completedAt := Some now\<rparr>"
  from assms have con: "consistent ?R ?D (inflight (cfg sc)) (scheduled sc) (used sc)"
    by (simp add: scheduled_inv_def)
  from Inr have mem: "job \<in> set ?R" and idj: "id_job job = i" by (auto dest: findById_SomeD)
  show ?thesis
  proof (cases "status job = COMPLETED \<or> status job = FAILED")
    case True
    with Inr have "cancel (store (cfg sc)) i now
        = (Inl (BadRequestException ''Cannot cancel completed or failed job''), store (cfg sc))"
      by (auto simp: cancel_outcome)
    with assms show ?thesis by (simp add: scheduled_inv_def)
  next
    case False
    with consistent_row(1)[OF con mem] have p0: "progress job = 0" by auto
    have "consistent (map (\<lambda>r. if id_job r = i then ?j else r) ?R) ?D (inflight (cfg sc))
        (scheduled sc) (used sc)"
      using con mem idj by (rule consistent_replace) (simp_all add: idj p0)
    moreover from Inr False have "cancel (store (cfg sc)) i now
        = (Inr ?j, (store (cfg sc))\<lparr>ingestionJobRepository :=
                      map (\<lambda>r. if id_job r = i then ?j else r) ?R\<rparr>)"
      by (simp add: cancel_outcome)
    ultimately show ?thesis by (simp add: scheduled_inv_def)
  qed
qed

lemma scheduled_inv_start:
  assumes "scheduled_inv sc"
  shows "scheduled_inv (scheduled_step sc (DispatchStart i now))"
proof (cases "i \<in> set (scheduled sc)")
  case False
  with assms show ?thesis by simp
next
  case True
  let ?R = "ingestionJobRepository (store (cfg sc))"
  let ?D = "documentRepository (store (cfg sc))"
  from assms have con: "consistent ?R ?D (inflight (cfg sc)) (scheduled sc) (used sc)"
    by (simp add: scheduled_inv_def)
  show ?thesis
  proof (cases "triggerIngestion_start (store (cfg sc)) i now")
    case (Inl e)
    from con have "consistent ?R ?D (inflight (cfg sc)) (remove1 i (scheduled sc)) (used sc)"
      by (rule consistent_unschedule)
    with True Inl show ?thesis by (simp add: scheduled_inv_def)
  next
    case (Inr x)
    obtain job p s1 where x: "x = (job, p, s1)" by (cases x)
    with Inr have st: "triggerIngestion_start (store (cfg sc)) i now = Inr (job, p, s1)"
      by simp
    from start_Inr[OF st] obtain job0 where f: "findById (store (cfg sc)) i = Inr job0"
      and j: "job = job0\<lparr>status := PROCESSING, startedAt := Some now\<rparr>"
      and idj: "id_job job = i"
      and rows: "ingestionJobRepository s1 = map (\<lambda>r. if id_job r = i then job else r) ?R"
      and fk: "\<forall>j. foreign_key_holds ?D j \<longrightarrow> foreign_key_holds (documentRepository s1) j"
      by blast
    from f have mem: "job0 \<in> set ?R" and id0: "id_job job0 = i"
      by (auto dest: findById_SomeD)
    from consistent_row(1,3)[OF con mem] True id0 have p0: "progress job0 = 0" by auto
    have "consistent (map (\<lambda>r. if id_job r = i then job else r) ?R) ?D (inflight (cfg sc))
        (scheduled sc) (used sc)"
      using con mem id0 by (rule consistent_replace) (simp_all add: j id0 p0)
    then have "consistent (map (\<lambda>r. if id_job r = i then job else r) ?R)
        (documentRepository s1) (inflight (cfg sc)) (scheduled sc) (used sc)"
      using fk by (rule consistent_documents)
    then have "consistent (map (\<lambda>r. if id_job r = i then job else r) ?R)
        (documentRepository s1) (inflight (cfg sc) @ [(job, p)]) (remove1 i (scheduled sc))
        (used sc)"
      using True idj by (rule consistent_started) (simp add: j p0)
    with True st rows show ?thesis by (simp add: scheduled_inv_def)
  qed
qed

lemma consistent_completed:
  assumes con: "consistent (ingestionJobRepository s) (documentRepository s) F S U"
    and k: "k < length F" and job: "fst (F ! k) = job"
  shows "consistent
           (ingestionJobRepository (snd (triggerIngestion_complete s job outcome tDone tDoc tFail)))
           (documentRepository (snd (triggerIngestion_complete s job outcome tDone tDoc tFail)))
           (take k F @ drop (Suc k) F) S U"
proof -
  let ?F' = "take k F @ drop (Suc k) F"
  obtain r s' where c: "triggerIngestion_complete s job outcome tDone tDoc tFail = (r, s')"
    by (cases "triggerIngestion_complete s job outcome tDone tDoc tFail")
  from complete_effect[OF c] obtain s1 jf where
    rows: "ingestionJobRepository s1 = ingestionJobRepository s"
    and fk: "\<forall>j. foreign_key_holds (documentRepository s) j
                 \<longrightarrow> foreign_key_holds (documentRepository s1) j"
    and sv: "s' = s1 \<or> save_job s1 jf = Inr s'"
    and idf: "id_job jf = id_job job"
    and st: "status jf = COMPLETED \<or> (status jf = FAILED \<and> progress jf = progress job)
               \<or> \<not> foreign_key_holds (documentRepository s1) jf"
    by blast
  from consistent_finished[OF con k] job
  have fin: "consistent (ingestionJobRepository s) (documentRepository s) ?F' S U"
    and out: "id_job job \<notin> set (S @ map (\<lambda>x. id_job (fst x)) ?F')"
    and gen: "id_job job \<in> set U" and p0: "progress job = 0"
    by simp_all
  from fin fk have con1: "consistent (ingestionJobRepository s1) (documentRepository s1) ?F' S U"
    unfolding rows by (rule consistent_documents)
  from sv have "consistent (ingestionJobRepository s') (documentRepository s') ?F' S U"
  proof
    assume "s' = s1"
    with con1 show ?thesis by simp
  next
    assume saved: "save_job s1 jf = Inr s'"
    from con1 have "list_all (foreign_key_holds (documentRepository s1))
        (ingestionJobRepository s1)"
      by (simp add: consistent_def)
    with saved have fkj: "foreign_key_holds (documentRepository s1) jf"
      by (rule save_job_foreign_key)
    with st p0 have ok: "status jf = COMPLETED \<or> progress jf = 0" by auto
    from save_job_Inr(4)[OF saved]
    have rows': "\<forall>r \<in> set (ingestionJobRepository s'). r = jf \<or> r \<in> set (ingestionJobRepository s1)"
      by blast
    from out gen idf have out': "id_job jf \<notin> set (S @ map (\<lambda>x. id_job (fst x)) ?F')"
      and gen': "id_job jf \<in> set U"
      by simp_all
    from con1 rows' fkj ok out' gen'
    have "consistent (ingestionJobRepository s') (documentRepository s1) ?F' S U"
      by (rule consistent_saved)
    with save_job_Inr(1)[OF saved] show ?thesis by simp
  qed
  with c show ?thesis by simp
qed

lemma scheduled_inv_complete:
  assumes "scheduled_inv sc"
  shows "scheduled_inv (scheduled_step sc (DispatchComplete k response tDone tDoc tFail))"
proof (cases "k < length (inflight (cfg sc))")
  case False
  with assms show ?thesis by (simp add: scheduled_inv_def)
next
  case True
  obtain job p where kp: "inflight (cfg sc) ! k = (job, p)" by (cases "inflight (cfg sc) ! k")
  from assms have con: "consistent (ingestionJobRepository (store (cfg sc)))
      (documentRepository (store (cfg sc))) (inflight (cfg sc)) (scheduled sc) (used sc)"
    by (simp add: scheduled_inv_def)
  from kp have "fst (inflight (cfg sc) ! k) = job" by simp
  with con True have "\<And>outcome. consistent
      (ingestionJobRepository
        (snd (triggerIngestion_complete (store (cfg sc)) job outcome tDone tDoc tFail)))
      (documentRepository
        (snd (triggerIngestion_complete (store (cfg sc)) job outcome tDone tDoc tFail)))
      (take k (inflight (cfg sc)) @ drop (Suc k) (inflight (cfg sc))) (scheduled sc) (used sc)"
    by (rule consistent_completed)
  with True kp show ?thesis by (cases p) (simp_all add: scheduled_inv_def)
qed

lemma scheduled_inv_documents:
  assumes "scheduled_inv sc"
  shows "scheduled_inv (scheduled_step sc (DocumentsChanged ds))"
  using assms
  by (simp add: scheduled_inv_def documents_replaced_def consistent_documents_replaced)

lemma scheduled_step_inv: "scheduled_inv sc \<Longrightarrow> scheduled_inv (scheduled_step sc ev)"
  by (cases ev)
     (simp_all only: scheduled_inv_create scheduled_inv_retry scheduled_inv_cancel
        scheduled_inv_start scheduled_inv_complete scheduled_inv_documents)

lemma scheduled_run_inv: "scheduled_inv sc \<Longrightarrow> scheduled_inv (scheduled_run evs sc)"
  unfolding scheduled_run_def by (induction evs arbitrary: sc) (simp_all add: scheduled_step_inv)

lemma scheduled_init_inv: "scheduled_inv (scheduled_init ds us)"
  by (simp add: scheduled_inv_def scheduled_init_def init_def consistent_def)

lemma retry_keeps_progress:
  assumes "retry s i = (Inr job', s')"
  shows "\<exists>job. findById s i = Inr job \<and> progress job' = progress job"
proof -
  from assms obtain job where f: "findById s i = Inr job"
    by (auto simp: retry_def split: sum.splits)
  with assms show ?thesis
    by (auto simp: retry_outcome split: if_splits)
qed

text \<open>
  C2. \<^verbatim>\<open>retry\<close> itself assigns status, \<open>retryCount\<close>, \<open>errorMessage\<close>, \<open>startedAt\<close>
  and \<open>completedAt\<close> and leaves \<open>progress\<close> as it is. In every store that the service
  reaches, a FAILED job has progress 0: progress is set to 100 only on the success
  branch of a dispatch, and a job that fails after that is not stored (the failing
  document update means its document is gone, and the store refuses the save). So after
  any scheduled run, a successful \<^verbatim>\<open>retry\<close> returns and persists the job with status
  PENDING, \<open>errorMessage\<close>, \<open>startedAt\<close> and \<open>completedAt\<close> NULL, \<open>retryCount\<close> one higher,
  progress 0 and every other field as it was.
\<close>

theorem retry_resets_job:
  assumes "retry (store (cfg (scheduled_run evs (scheduled_init ds us)))) i = (Inr job', s')"
  shows "\<exists>job. findById (store (cfg (scheduled_run evs (scheduled_init ds us)))) i = Inr job
       \<and> job' = job\<lparr>status := PENDING, retryCount := retryCount job + 1,
                     errorMessage := None, startedAt := None, completedAt := None\<rparr>
       \<and> progress job' = 0
       \<and> findById s' i = Inr job'"
proof -
  let ?s = "store (cfg (scheduled_run evs (scheduled_init ds us)))"
  from assms obtain job where f: "findById ?s i = Inr job"
    by (auto simp: retry_def split: sum.splits)
  let ?j = "job\<lparr>status := PENDING, retryCount := retryCount job + 1,
                errorMessage := None, startedAt := None, completedAt := None\<rparr>"
  from assms have failed: "status job = FAILED" and j': "job' = ?j"
    and s': "s' = ?s\<lparr>ingestionJobRepository :=
                  map (\<lambda>r. if id_job r = i then ?j else r) (ingestionJobRepository ?s)\<rparr>"
    unfolding retry_outcome[OF f] by (auto split: if_splits)
  have "scheduled_inv (scheduled_run evs (scheduled_init ds us))"
    using scheduled_init_inv by (rule scheduled_run_inv)
  then have "consistent (ingestionJobRepository ?s) (documentRepository ?s)
      (inflight (cfg (scheduled_run evs (scheduled_init ds us))))
      (scheduled (scheduled_run evs (scheduled_init ds us)))
      (used (scheduled_run evs (scheduled_init ds us)))"
    by (simp add: scheduled_inv_def)
  moreover from f have "job \<in> set (ingestionJobRepository ?s)" by (auto dest: findById_SomeD)
  ultimately have "status job = COMPLETED \<or> progress job = 0" by (rule consistent_row(1))
  with failed have p0: "progress job = 0" by simp
  from f have "id_job job = i" by (auto dest: findById_SomeD)
  then have "save_job ?s ?j = Inr s'"
    unfolding s' using save_job_loaded[OF f, of ?j] by simp
  then have "findById s' (id_job ?j) = Inr ?j" by (rule save_job_Inr(3))
  with \<open>id_job job = i\<close> have "findById s' i = Inr ?j" by simp
  with f j' p0 show ?thesis by simp
qed

theorem retry_resets_job_witness:
  "store (cfg (scheduled_run
       [Create example_dto ''u1'' ''j1'', DispatchStart ''j1'' 1000,
        DispatchComplete 0 (Inl ''timeout of 30000ms exceeded'') 6000 6001 6002]
       (scheduled_init [example_doc] [''u1''])))
     = \<lparr> ingestionJobRepository =
           [(example_job ''j1'' FAILED (Some 1000) (Some 6002))
              \<lparr>errorMessage := Some ''timeout of 30000ms exceeded''\<rparr>],
         documentRepository = [example_doc\<lparr>status_doc := ERROR\<rparr>],
         userRepository = [''u1''] \<rparr>
   \<and> retry \<lparr> ingestionJobRepository =
                [(example_job ''j1'' FAILED (Some 1000) (Some 6002))
                   \<lparr>errorMessage := Some ''timeout of 30000ms exceeded''\<rparr>],
              documentRepository = [example_doc\<lparr>status_doc := ERROR\<rparr>],
              userRepository = [''u1''] \<rparr> ''j1''
     = (Inr ((example_job ''j1'' PENDING None None)\<lparr>retryCount := 1\<rparr>),
        \<lparr> ingestionJobRepository = [(example_job ''j1'' PENDING None None)\<lparr>retryCount := 1\<rparr>],
          documentRepository = [example_doc\<lparr>status_doc := ERROR\<rparr>],
          userRepository = [''u1''] \<rparr>)"
proof -
  have e: "store (cfg (scheduled_run
       [Create example_dto ''u1'' ''j1'', DispatchStart ''j1'' 1000,
        DispatchComplete 0 (Inl ''timeout of 30000ms exceeded'') 6000 6001 6002]
       (scheduled_init [example_doc] [''u1''])))
     = \<lparr> ingestionJobRepository =
           [(example_job ''j1'' FAILED (Some 1000) (Some 6002))
              \<lparr>errorMessage := Some ''timeout of 30000ms exceeded''\<rparr>],
         documentRepository = [example_doc\<lparr>status_doc := ERROR\<rparr>],
         userRepository = [''u1''] \<rparr>"
    by (simp add: example_defs service_defs)
  have r: "retry \<lparr> ingestionJobRepository =
                [(example_job ''j1'' FAILED (Some 1000) (Some 6002))
                   \<lparr>errorMessage := Some ''timeout of 30000ms exceeded''\<rparr>],
              documentRepository = [example_doc\<lparr>status_doc := ERROR\<rparr>],
              userRepository = [''u1''] \<rparr> ''j1''
     = (Inr ((example_job ''j1'' PENDING None None)\<lparr>retryCount := 1\<rparr>),
        \<lparr> ingestionJobRepository = [(example_job ''j1'' PENDING None None)\<lparr>retryCount := 1\<rparr>],
          documentRepository = [example_doc\<lparr>status_doc := ERROR\<rparr>],
          userRepository = [''u1''] \<rparr>)"
    by (simp add: example_defs service_defs)
  from r have "retry (store (cfg (scheduled_run
       [Create example_dto ''u1'' ''j1'', DispatchStart ''j1'' 1000,
        DispatchComplete 0 (Inl ''timeout of 30000ms exceeded'') 6000 6001 6002]
       (scheduled_init [example_doc] [''u1''])))) ''j1''
     = (Inr ((example_job ''j1'' PENDING None None)\<lparr>retryCount := 1\<rparr>),
        \<lparr> ingestionJobRepository = [(example_job ''j1'' PENDING None None)\<lparr>retryCount := 1\<rparr>],
          documentRepository = [example_doc\<lparr>status_doc := ERROR\<rparr>],
          userRepository = [''u1''] \<rparr>)"
    unfolding e .
  from retry_resets_job[OF this] e r show ?thesis by simp
qed

end
